theory Spec2Isabelle
  imports Complex_Main "HOL-Library.Char_ord" "HOL-Library.List_Lexorder"
    "HOL-Library.Product_Lexorder"
begin

section \<open>The topology scheduler (schedule-daemon.py)\<close>

text \<open>
  A shallow embedding of \<^verbatim>\<open>gpudirect-tcpxo/topology-scheduler/schedule-daemon.py\<close>.
  Python exceptions are values of the type \<open>error\<close>; a function that can raise returns
  \<open>error + 'a\<close> with \<open>Inl\<close> for the exception. Python integers are \<open>int\<close>, strings are
  \<open>string\<close>, tuples of strings are lists of strings (Python orders both
  lexicographically, and so does the order on lists).
\<close>

subsection \<open>Exceptions and Python indexing\<close>

datatype error = IndexError | KeyError | ValueError | TypeError | AssertionError | ApiException

text \<open>\<open>xs[i]\<close>: a negative index counts from the end, anything out of range raises.\<close>

definition py_index :: "'a list \<Rightarrow> int \<Rightarrow> error + 'a" where
  "py_index xs i =
     (if 0 \<le> i \<and> i < int (length xs) then Inr (xs ! nat i)
      else if i < 0 \<and> - int (length xs) \<le> i then Inr (xs ! nat (int (length xs) + i))
      else Inl IndexError)"

subsection \<open>Node and pod dictionaries\<close>

text \<open>
  The dictionary \<open>node_info\<close> that \<open>find_schedulable_nodes\<close> builds (keys \<open>name\<close>, \<open>cpu\<close>,
  \<open>memory\<close>, \<open>gpu\<close>, \<open>node_labels\<close>). Free cpu and memory are the decimals of
  \<open>parse_quantity\<close>, free gpu is an integer.
\<close>

record node_info =
  node_name :: string
  node_cpu :: rat
  node_memory :: rat
  node_gpu :: int
  node_labels :: "string \<rightharpoonup> string"

subsection \<open>Topology key and distance\<close>

text \<open>\<open>node_topology_key\<close>: the 4-tuple of the topology labels, or the empty tuple.\<close>

definition node_topology_key :: "node_info \<Rightarrow> string list" where
  "node_topology_key node =
     (let labels = node_labels node in
      if labels ''cloud.google.com/gke-placement-group'' \<noteq> None
         \<and> labels ''topology.gke.io/cluster'' \<noteq> None
         \<and> labels ''topology.gke.io/rack'' \<noteq> None
         \<and> labels ''topology.gke.io/host'' \<noteq> None
      then [the (labels ''cloud.google.com/gke-placement-group''),
            the (labels ''topology.gke.io/cluster''),
            the (labels ''topology.gke.io/rack''),
            the (labels ''topology.gke.io/host'')]
      else [])"

text \<open>
  The loop of \<open>node_topology_distance\<close>, \<open>for i in range(len(node1_key))\<close>, from index
  \<open>i\<close> with the current \<open>result\<close>. \<open>node2_key[i]\<close> raises when the second key is shorter.
  \<open>result /= 100\<close> is Python's true division; on 1000000, 10000, 100 and 1 it is exact in
  binary floating point, so the values are rationals here.
\<close>

function distance_loop :: "string list \<Rightarrow> string list \<Rightarrow> nat \<Rightarrow> rat \<Rightarrow> error + rat" where
  "distance_loop node1_key node2_key i result =
     (if i < length node1_key then
        (case py_index node2_key (int i) of
           Inl e \<Rightarrow> Inl e
         | Inr k2 \<Rightarrow>
             if node1_key ! i \<noteq> k2 then Inr result
             else distance_loop node1_key node2_key (i + 1) (result / 100))
      else Inr 0)"
  by pat_completeness auto
termination
  by (relation "measure (\<lambda>(node1_key, node2_key, i, result). length node1_key - i)") auto

declare distance_loop.simps [simp del]

definition node_topology_distance :: "node_info \<Rightarrow> node_info \<Rightarrow> error + rat" where
  "node_topology_distance node1 node2 =
     distance_loop (node_topology_key node1) (node_topology_key node2) 0 1000000"

subsection \<open>Kubernetes objects\<close>

text \<open>
  The fields of the client library's objects that the daemon reads or writes. An
  attribute that the client leaves \<open>None\<close> is an \<open>option\<close>. Quantities and label values
  stay strings; \<open>creation_timestamp\<close> is a point in time, an integer here.
\<close>

datatype scheduling_gate = V1PodSchedulingGate (sg_name: string)

record v1_toleration =
  tol_key :: "string option"
  tol_operator :: "string option"
  tol_value :: "string option"
  tol_effect :: "string option"
  tol_seconds :: "int option"

record v1_taint =
  taint_key :: string
  taint_value :: "string option"
  taint_effect :: string

record v1_container =
  requests :: "(string \<rightharpoonup> string) option"

record match_expression =
  expr_key :: string
  expr_operator :: string
  expr_values :: "string list"

text \<open>
  \<open>spec.affinity\<close>: whatever the pod carried (kept opaque), or the dictionary that
  \<open>schedule_pod_on_node\<close> writes, a required node affinity given by its
  \<open>nodeSelectorTerms\<close>, each the list of its \<open>matchExpressions\<close>.
\<close>

datatype affinity =
  Existing_affinity nat
| Required_node_affinity "match_expression list list"

record v1_pod_spec =
  containers :: "v1_container list"
  node_selector :: "(string \<times> string) list option"
  tolerations :: "v1_toleration list option"
  scheduling_gates :: "scheduling_gate list option"
  spec_node_name :: "string option"
  spec_affinity :: "affinity option"

record v1_object_meta =
  meta_name :: string
  meta_namespace :: string
  meta_labels :: "(string \<rightharpoonup> string) option"
  creation_timestamp :: "int option"

record v1_container_status =
  terminated :: bool

record v1_pod_status =
  container_statuses :: "v1_container_status list option"

record v1_pod =
  metadata :: v1_object_meta
  spec :: v1_pod_spec
  status :: "v1_pod_status option"

record v1_node_condition =
  cond_type :: string
  cond_status :: string

record v1_node =
  nmeta_name :: string
  nmeta_labels :: "string \<rightharpoonup> string"
  nspec_taints :: "v1_taint list option"
  nstatus_conditions :: "v1_node_condition list"
  nstatus_allocatable :: "string \<rightharpoonup> string"

text \<open>
  The dictionary that \<open>find_schedulable_pods\<close> builds for a gated pod (keys \<open>name\<close>,
  \<open>namespace\<close>, \<open>index\<close>, \<open>cpu\<close>, \<open>memory\<close>, \<open>gpu\<close>, \<open>node_selector\<close>, \<open>spec\<close>,
  \<open>metadata\<close>, \<open>job_name\<close>, \<open>creation_time\<close>).
\<close>

record pod_info =
  pod_name :: string
  pod_namespace :: string
  pod_index :: "string option"
  pod_cpu :: rat
  pod_memory :: rat
  pod_gpu :: int
  pod_node_selector :: "(string \<times> string) list option"
  pod_spec :: v1_pod_spec
  pod_metadata :: v1_object_meta
  job_name :: "string option"
  creation_time :: "int option"

subsection \<open>Feasibility of a pod on a node\<close>

text \<open>
  \<open>can_schedule\<close>: a selector that is \<open>None\<close> or empty is skipped; otherwise the first
  pair that the node's labels do not carry returns \<open>False\<close>.
\<close>

definition can_schedule :: "node_info \<Rightarrow> pod_info \<Rightarrow> bool" where
  "can_schedule node pod =
     (let selector = pod_node_selector pod; labels = node_labels node in
      if (case selector of
            None \<Rightarrow> False
          | Some items \<Rightarrow> list_ex (\<lambda>(k, v). labels k = None \<or> labels k \<noteq> Some v) items)
      then False
      else node_cpu node \<ge> pod_cpu pod
         \<and> node_memory node \<ge> pod_memory pod
         \<and> node_gpu node \<ge> pod_gpu pod)"

subsection \<open>The assignment search\<close>

text \<open>\<open>xs[i] = v\<close>, with Python's reading of the index.\<close>

definition py_store :: "'a list \<Rightarrow> int \<Rightarrow> 'a \<Rightarrow> error + 'a list" where
  "py_store xs i v =
     (if 0 \<le> i \<and> i < int (length xs) then Inr (xs[nat i := v])
      else if i < 0 \<and> - int (length xs) \<le> i then Inr (xs[nat (int (length xs) + i) := v])
      else Inl IndexError)"

text \<open>
  One pass through the body of the inner \<open>while i >= 0 and all_ok\<close> loop of
  \<open>calculate_pods_assignment\<close>: the assignment after \<open>assignment[i] += 1\<close>, and either
  \<open>Break\<close> or the values of \<open>i\<close> and \<open>all_ok\<close> for the next test of the loop condition.
\<close>

datatype loop_exit = Break | Continue int bool

definition inner_body ::
  "node_info list \<Rightarrow> pod_info list \<Rightarrow> int list \<Rightarrow> int \<Rightarrow> error + (int list \<times> loop_exit)" where
  "inner_body sorted_nodes sorted_pods assignment i =
     (case py_index assignment i of
        Inl e \<Rightarrow> Inl e
      | Inr old \<Rightarrow>
     (case py_store assignment i (old + 1) of
        Inl e \<Rightarrow> Inl e
      | Inr assignment' \<Rightarrow>
          if old + 1 = int (length sorted_nodes) then Inr (assignment', Break)
          else
            (case (if old + 1 \<ge> 0 then
                     (case py_index sorted_nodes (old + 1) of
                        Inl e \<Rightarrow> Inl e
                      | Inr node \<Rightarrow>
                          (case py_index sorted_pods i of
                             Inl e \<Rightarrow> Inl e
                           | Inr pod \<Rightarrow> Inr (can_schedule node pod)))
                   else Inr False) of
               Inl e \<Rightarrow> Inl e
             | Inr True \<Rightarrow> Inr (assignment', Continue (i - 1) True)
             | Inr False \<Rightarrow>
                 if i < int (length assignment') - 1 then
                   (case py_index assignment' (i + 1) of
                      Inl e \<Rightarrow> Inl e
                    | Inr right \<Rightarrow>
                        if old + 1 = right - 1 then Inr (assignment', Continue i False)
                        else Inr (assignment', Continue i True))
                 else Inr (assignment', Continue i True))))"

text \<open>
  The inner loop from the state \<open>(assignment, i, all_ok)\<close>; it returns the assignment
  and \<open>all_ok\<close> with which the loop is left. \<open>None\<close> is a loop that does not end.
\<close>

partial_function (option) inner_loop ::
  "node_info list \<Rightarrow> pod_info list \<Rightarrow> int list \<Rightarrow> int \<Rightarrow> bool
     \<Rightarrow> (error + (int list \<times> bool)) option" where
  "inner_loop sorted_nodes sorted_pods assignment i all_ok =
     (if i \<ge> 0 \<and> all_ok then
        (case inner_body sorted_nodes sorted_pods assignment i of
           Inl e \<Rightarrow> Some (Inl e)
         | Inr (assignment', Break) \<Rightarrow> Some (Inr (assignment', all_ok))
         | Inr (assignment', Continue i' all_ok') \<Rightarrow>
             inner_loop sorted_nodes sorted_pods assignment' i' all_ok')
      else Some (Inr (assignment, all_ok)))"

text \<open>
  \<open>new_distance\<close>: the sum, for \<open>i\<close> in \<open>range(1, len(sorted_pods))\<close>, of the distances
  between the nodes of positions \<open>i\<close> and \<open>i - 1\<close>.
\<close>

fun distance_sum :: "node_info list \<Rightarrow> int list \<Rightarrow> nat list \<Rightarrow> rat \<Rightarrow> error + rat" where
  "distance_sum sorted_nodes assignment [] new_distance = Inr new_distance"
| "distance_sum sorted_nodes assignment (i # rest) new_distance =
     (case py_index assignment (int i) of
        Inl e \<Rightarrow> Inl e
      | Inr a1 \<Rightarrow>
     (case py_index sorted_nodes a1 of
        Inl e \<Rightarrow> Inl e
      | Inr node1 \<Rightarrow>
     (case py_index assignment (int i - 1) of
        Inl e \<Rightarrow> Inl e
      | Inr a2 \<Rightarrow>
     (case py_index sorted_nodes a2 of
        Inl e \<Rightarrow> Inl e
      | Inr node2 \<Rightarrow>
     (case node_topology_distance node1 node2 of
        Inl e \<Rightarrow> Inl e
      | Inr d \<Rightarrow> distance_sum sorted_nodes assignment rest (new_distance + d))))))"

definition assignment_distance ::
  "node_info list \<Rightarrow> pod_info list \<Rightarrow> int list \<Rightarrow> error + rat" where
  "assignment_distance sorted_nodes sorted_pods assignment =
     distance_sum sorted_nodes assignment [1..<length sorted_pods] 0"

text \<open>
  The outer \<open>while True\<close> loop from the state
  \<open>(assignment, best_assignment, minimum_distance)\<close>.
\<close>

partial_function (option) outer_loop ::
  "node_info list \<Rightarrow> pod_info list \<Rightarrow> int list \<Rightarrow> int list \<Rightarrow> rat
     \<Rightarrow> (error + int list) option" where
  "outer_loop sorted_nodes sorted_pods assignment best_assignment minimum_distance =
     (case inner_loop sorted_nodes sorted_pods assignment (int (length assignment) - 1) True of
        None \<Rightarrow> None
      | Some (Inl e) \<Rightarrow> Some (Inl e)
      | Some (Inr (assignment', all_ok)) \<Rightarrow>
          (case py_index assignment' (- 1) of
             Inl e \<Rightarrow> Some (Inl e)
           | Inr rightmost \<Rightarrow>
               if rightmost = int (length sorted_nodes) then Some (Inr best_assignment)
               else if all_ok then
                 (case assignment_distance sorted_nodes sorted_pods assignment' of
                    Inl e \<Rightarrow> Some (Inl e)
                  | Inr new_distance \<Rightarrow>
                      if new_distance < minimum_distance
                      then outer_loop sorted_nodes sorted_pods assignment' assignment' new_distance
                      else outer_loop sorted_nodes sorted_pods assignment' best_assignment
                             minimum_distance)
               else outer_loop sorted_nodes sorted_pods assignment' best_assignment
                      minimum_distance))"

definition calculate_pods_assignment ::
  "node_info list \<Rightarrow> pod_info list \<Rightarrow> (error + int list) option" where
  "calculate_pods_assignment sorted_nodes sorted_pods =
     outer_loop sorted_nodes sorted_pods
       (map (\<lambda>i. - int i) (rev [1..<length sorted_pods + 1])) [] 1000000000"

declare inner_loop.simps [code]

declare outer_loop.simps [code]

subsection \<open>Properties of assignments\<close>

text \<open>
  Position \<open>j\<close> of an assignment is accepted: its value is an index into the sorted
  nodes, and pod \<open>j\<close> can be scheduled on that node.
\<close>

definition accepted :: "node_info list \<Rightarrow> pod_info list \<Rightarrow> int list \<Rightarrow> nat \<Rightarrow> bool" where
  "accepted nodes pods a j =
     (0 \<le> a ! j \<and> a ! j < int (length nodes) \<and> can_schedule (nodes ! nat (a ! j)) (pods ! j))"

text \<open>
  A feasible assignment: one index per pod, strictly increasing, every position
  accepted.
\<close>

definition good_assignment :: "node_info list \<Rightarrow> pod_info list \<Rightarrow> int list \<Rightarrow> bool" where
  "good_assignment nodes pods a =
     (length a = length pods \<and> sorted_wrt (<) a \<and> (\<forall>j<length pods. accepted nodes pods a j))"

text \<open>
  The invariant of the inner loop at the test of its condition with \<open>all_ok\<close> true, and
  what holds of the assignment \<open>a'\<close> with which the loop started from \<open>a\<close> is left.
\<close>

definition inner_inv :: "node_info list \<Rightarrow> pod_info list \<Rightarrow> int list \<Rightarrow> int \<Rightarrow> bool" where
  "inner_inv nodes pods a i =
     (length a = length pods \<and> pods \<noteq> [] \<and> sorted_wrt (<) a
      \<and> a ! (length pods - 1) < int (length nodes)
      \<and> - 1 \<le> i \<and> i < int (length pods)
      \<and> (0 \<le> i \<and> i + 1 < int (length pods) \<longrightarrow> a ! nat i + 1 < a ! nat (i + 1))
      \<and> (\<forall>j. i < int j \<and> j < length pods \<longrightarrow> accepted nodes pods a j))"

definition inner_post ::
  "node_info list \<Rightarrow> pod_info list \<Rightarrow> int list \<Rightarrow> int list \<Rightarrow> bool \<Rightarrow> bool" where
  "inner_post nodes pods a a' ok =
     (length a' = length pods \<and> sorted_wrt (<) a'
      \<and> a' ! (length pods - 1) \<le> int (length nodes)
      \<and> (\<forall>j<length pods. a ! j \<le> a' ! j)
      \<and> (ok \<and> a' ! (length pods - 1) \<noteq> int (length nodes)
           \<longrightarrow> (\<forall>j<length pods. accepted nodes pods a' j)))"

subsection \<open>Ordering the pods of a job\<close>

text \<open>
  Python's \<open>str.isdigit\<close> and \<open>int\<close> on the strings the daemon meets: pod names and
  label values, which Kubernetes restricts to ASCII. \<open>int\<close> strips surrounding
  whitespace, reads an optional sign, and accepts decimal digits with single underscores
  between them; anything else raises \<open>ValueError\<close>.
\<close>

definition isdigit :: "char \<Rightarrow> bool" where
  "isdigit c = (c \<in> set ''0123456789'')"

definition isspace :: "char \<Rightarrow> bool" where
  "isspace c =
     (c \<in> set [CHR '' '', CHR 0x09, CHR 0x0A, CHR 0x0B, CHR 0x0C, CHR 0x0D,
                CHR 0x1C, CHR 0x1D, CHR 0x1E, CHR 0x1F])"

definition strip :: "string \<Rightarrow> string" where
  "strip s = rev (dropWhile isspace (rev (dropWhile isspace s)))"

definition digit_value :: "char \<Rightarrow> int" where
  "digit_value c = int (of_char c) - 48"

definition decimal :: "string \<Rightarrow> int" where
  "decimal s = foldl (\<lambda>n c. 10 * n + digit_value c) 0 s"

fun digits_ok :: "string \<Rightarrow> bool" where
  "digits_ok [] = False"
| "digits_ok [c] = isdigit c"
| "digits_ok (c # d # r) =
     (isdigit c \<and> (if d = CHR ''_'' then digits_ok r else digits_ok (d # r)))"

definition py_int :: "string \<Rightarrow> error + int" where
  "py_int s =
     (let t = strip s;
          negative = (t \<noteq> [] \<and> hd t = CHR ''-'');
          body = (if t \<noteq> [] \<and> (hd t = CHR ''-'' \<or> hd t = CHR ''+'') then tl t else t)
      in if digits_ok body
         then Inr ((if negative then - 1 else 1) * decimal (filter isdigit body))
         else Inl ValueError)"

text \<open>
  The key of \<open>pod_sorting_key\<close>: the integer of the completion index, or the tuple
  \<open>(prefix, number)\<close>.
\<close>

datatype sorting_key = Int_key int | Tuple_key string int

text \<open>
  The loop \<open>while name[-1 - len(suffix)].isdigit()\<close> of \<open>pod_sorting_key\<close>, from the
  current \<open>suffix\<close>; the index raises once the suffix is the whole name.
\<close>

function suffix_loop :: "string \<Rightarrow> string \<Rightarrow> error + string" where
  "suffix_loop name suffix =
     (case py_index name (- 1 - int (length suffix)) of
        Inl e \<Rightarrow> Inl e
      | Inr c \<Rightarrow> if isdigit c then suffix_loop name (c # suffix) else Inr suffix)"
  by pat_completeness auto
termination
  by (relation "measure (\<lambda>(name, suffix). length name - length suffix)")
     (auto simp: py_index_def split: if_splits)

declare suffix_loop.simps [simp del]

definition pod_sorting_key :: "pod_info \<Rightarrow> error + sorting_key" where
  "pod_sorting_key pod =
     (case pod_index pod of
        Some index \<Rightarrow>
          (case py_int index of Inl e \<Rightarrow> Inl e | Inr n \<Rightarrow> Inr (Int_key n))
      | None \<Rightarrow>
          (let name = pod_name pod in
           case suffix_loop name [] of
             Inl e \<Rightarrow> Inl e
           | Inr suffix \<Rightarrow>
               (case (if suffix \<noteq> [] then py_int suffix else Inr 0) of
                  Inl e \<Rightarrow> Inl e
                | Inr idx \<Rightarrow>
                    Inr (Tuple_key (take (length name - length suffix) name) idx))))"

subsection \<open>Grouping the pods into jobs\<close>

text \<open>
  \<open>itertools.groupby\<close>: a group is a maximal run of consecutive elements with equal
  keys; the input is not sorted first.
\<close>

function groupby :: "('a \<Rightarrow> 'k) \<Rightarrow> 'a list \<Rightarrow> 'a list list" where
  "groupby f [] = []"
| "groupby f (x # xs) =
     (x # takeWhile (\<lambda>y. f y = f x) xs) # groupby f (dropWhile (\<lambda>y. f y = f x) xs)"
  by pat_completeness auto
termination
  by (relation "measure (\<lambda>(f, xs). length xs)")
     (auto simp: length_dropWhile_le less_Suc_eq_le)

definition split_pods_based_on_jobs :: "pod_info list \<Rightarrow> pod_info list list" where
  "split_pods_based_on_jobs pods = groupby job_name pods"

text \<open>\<open>sort_jobs_by_time\<close>: \<open>job[0].get('creation_time')\<close>.\<close>

definition sort_jobs_by_time :: "pod_info list \<Rightarrow> error + int option" where
  "sort_jobs_by_time job =
     (case py_index job 0 of Inl e \<Rightarrow> Inl e | Inr pod \<Rightarrow> Inr (creation_time pod))"

text \<open>The values of a list of results, or the first exception in it.\<close>

fun collect :: "(error + 'a) list \<Rightarrow> error + 'a list" where
  "collect [] = Inr []"
| "collect (Inl e # rs) = Inl e"
| "collect (Inr x # rs) = (case collect rs of Inl e \<Rightarrow> Inl e | Inr xs \<Rightarrow> Inr (x # xs))"

text \<open>
  \<open>sorted(jobs, key=sort_jobs_by_time)\<close>. Python computes every key first, then sorts
  stably with \<open><\<close> on the keys. Sorting two or more elements compares every key at
  least once, and a comparison with \<open>None\<close> raises \<open>TypeError\<close>.
\<close>

definition sorted_jobs_by_time :: "pod_info list list \<Rightarrow> error + pod_info list list" where
  "sorted_jobs_by_time jobs =
     (case collect (map sort_jobs_by_time jobs) of
        Inl e \<Rightarrow> Inl e
      | Inr keys \<Rightarrow>
          if length jobs \<ge> 2 \<and> None \<in> set keys then Inl TypeError
          else Inr (sort_key (\<lambda>job. case sort_jobs_by_time job of
                                        Inr (Some t) \<Rightarrow> t | _ \<Rightarrow> 0) jobs))"

text \<open>
  \<open>sorted(job, key=pod_sorting_key)\<close>: the keys are all integers or all tuples, or the
  comparison of an integer with a tuple raises \<open>TypeError\<close>.
\<close>

definition is_int_key :: "sorting_key \<Rightarrow> bool" where
  "is_int_key k = (case k of Int_key n \<Rightarrow> True | Tuple_key p n \<Rightarrow> False)"

definition sorted_pods_by_key :: "pod_info list \<Rightarrow> error + pod_info list" where
  "sorted_pods_by_key job =
     (case collect (map pod_sorting_key job) of
        Inl e \<Rightarrow> Inl e
      | Inr keys \<Rightarrow>
          if list_all is_int_key keys then
            Inr (sort_key (\<lambda>pod. case pod_sorting_key pod of
                                     Inr (Int_key n) \<Rightarrow> n | _ \<Rightarrow> 0) job)
          else if list_all (\<lambda>k. \<not> is_int_key k) keys then
            Inr (sort_key (\<lambda>pod. case pod_sorting_key pod of
                                     Inr (Tuple_key p n) \<Rightarrow> (p, n) | _ \<Rightarrow> ([], 0)) job)
          else Inl TypeError)"

subsection \<open>Tolerations of a job\<close>

text \<open>
  The loop of \<open>get_pods_taint_toleration\<close> from the current \<open>ts\<close>; the assertion
  compares the first tolerations that are not \<open>None\<close> with those of every later pod.
\<close>

fun toleration_loop ::
  "pod_info list \<Rightarrow> v1_toleration list option \<Rightarrow> error + v1_toleration list option" where
  "toleration_loop [] ts = Inr ts"
| "toleration_loop (pod # pods) ts =
     (if ts = None then toleration_loop pods (tolerations (pod_spec pod))
      else if ts = tolerations (pod_spec pod) then toleration_loop pods ts
      else Inl AssertionError)"

definition get_pods_taint_toleration :: "pod_info list \<Rightarrow> error + v1_toleration list" where
  "get_pods_taint_toleration pods =
     (case toleration_loop pods None of
        Inl e \<Rightarrow> Inl e
      | Inr ts \<Rightarrow> Inr (case ts of None \<Rightarrow> [] | Some l \<Rightarrow> l))"

subsection \<open>Resource accounting and the node filter\<close>

text \<open>
  A Python dictionary whose order matters is a list of pairs in insertion order;
  \<open>d[k] = v\<close> replaces the entry of \<open>k\<close> in place or appends a new one.
\<close>

fun dict_set :: "('k \<times> 'v) list \<Rightarrow> 'k \<Rightarrow> 'v \<Rightarrow> ('k \<times> 'v) list" where
  "dict_set [] k v = [(k, v)]"
| "dict_set ((k', v') # d) k v = (if k' = k then (k, v) # d else (k', v') # dict_set d k v)"

text \<open>
  \<open>parse_quantity\<close> belongs to the Kubernetes client library; it is a parameter
  \<open>pq\<close> of the functions that call it, from a quantity string to its decimal or
  \<open>ValueError\<close>. \<open>requests.get(key, 0)\<close> gives the number 0 for a missing key.
\<close>

definition quantity_of :: "(string \<Rightarrow> error + rat) \<Rightarrow> string option \<Rightarrow> error + rat" where
  "quantity_of pq q = (case q of None \<Rightarrow> Inr 0 | Some s \<Rightarrow> pq s)"

definition int_of :: "string option \<Rightarrow> error + int" where
  "int_of q = (case q of None \<Rightarrow> Inr 0 | Some s \<Rightarrow> py_int s)"

text \<open>
  The three additions of one container to \<open>(used_cpu, used_memory, used_gpu)\<close>, shared
  by \<open>get_pod_used_resources\<close> and \<open>find_schedulable_pods\<close>.
\<close>

definition add_requests ::
  "(string \<Rightarrow> error + rat) \<Rightarrow> v1_container \<Rightarrow> rat \<times> rat \<times> int \<Rightarrow> error + (rat \<times> rat \<times> int)" where
  "add_requests pq container used =
     (let reqs = (case requests container of None \<Rightarrow> Map.empty | Some r \<Rightarrow> r) in
      case quantity_of pq (reqs ''cpu'') of
        Inl e \<Rightarrow> Inl e
      | Inr cpu \<Rightarrow>
     (case quantity_of pq (reqs ''memory'') of
        Inl e \<Rightarrow> Inl e
      | Inr mem \<Rightarrow>
     (case int_of (reqs ''nvidia.com/gpu'') of
        Inl e \<Rightarrow> Inl e
      | Inr gpu \<Rightarrow>
          Inr (fst used + cpu, fst (snd used) + mem, snd (snd used) + gpu))))"

text \<open>
  The loop of \<open>get_pod_used_resources\<close> over
  \<open>zip(pod.spec.containers, pod.status.container_statuses)\<close>.
\<close>

fun used_loop ::
  "(string \<Rightarrow> error + rat) \<Rightarrow> (v1_container \<times> v1_container_status) list
     \<Rightarrow> rat \<times> rat \<times> int \<Rightarrow> error + (rat \<times> rat \<times> int)" where
  "used_loop pq [] used = Inr used"
| "used_loop pq ((container, container_status) # rest) used =
     (if terminated container_status then used_loop pq rest used
      else (case add_requests pq container used of
              Inl e \<Rightarrow> Inl e
            | Inr used' \<Rightarrow> used_loop pq rest used'))"

definition get_pod_used_resources ::
  "(string \<Rightarrow> error + rat) \<Rightarrow> v1_pod \<Rightarrow> error + (rat \<times> rat \<times> int)" where
  "get_pod_used_resources pq pod =
     (case status pod of
        None \<Rightarrow> Inr (0, 0, 0)
      | Some st \<Rightarrow>
          (case container_statuses st of
             None \<Rightarrow> Inr (0, 0, 0)
           | Some statuses \<Rightarrow> used_loop pq (zip (containers (spec pod)) statuses) (0, 0, 0)))"

text \<open>
  The inner loop \<open>for pod in pods\<close> of \<open>find_schedulable_nodes\<close>: the requests of the
  pods bound to the node.
\<close>

fun node_used_loop ::
  "(string \<Rightarrow> error + rat) \<Rightarrow> string \<Rightarrow> v1_pod list \<Rightarrow> rat \<times> rat \<times> int
     \<Rightarrow> error + (rat \<times> rat \<times> int)" where
  "node_used_loop pq name [] used = Inr used"
| "node_used_loop pq name (pod # pods) used =
     (if spec_node_name (spec pod) = Some name then
        (case get_pod_used_resources pq pod of
           Inl e \<Rightarrow> Inl e
         | Inr (cpu, mem, gpu) \<Rightarrow>
             node_used_loop pq name pods
               (fst used + cpu, fst (snd used) + mem, snd (snd used) + gpu))
      else node_used_loop pq name pods used)"

text \<open>\<open>{t.key: t for t in tolerated_taints}\<close>: a later toleration replaces an earlier one.\<close>

definition toleration_dict ::
  "v1_toleration list option \<Rightarrow> (string option \<rightharpoonup> v1_toleration)" where
  "toleration_dict tolerated_taints =
     (case tolerated_taints of
        None \<Rightarrow> Map.empty
      | Some ts \<Rightarrow> fold (\<lambda>t d. d(tol_key t \<mapsto> t)) ts Map.empty)"

text \<open>
  The loop over \<open>node.spec.taints\<close>: true when it sets \<open>skip_node\<close> (and breaks).
\<close>

fun taints_skip :: "(string option \<rightharpoonup> v1_toleration) \<Rightarrow> v1_taint list \<Rightarrow> bool" where
  "taints_skip d [] = False"
| "taints_skip d (t # ts) =
     (case d (Some (taint_key t)) of
        None \<Rightarrow> True
      | Some tol \<Rightarrow>
          if tol_operator tol = Some ''Equal'' \<and> tol_value tol \<noteq> taint_value t then True
          else taints_skip d ts)"

text \<open>
  The free capacity of a node that passed the checks, as the dictionary \<open>node_info\<close>.
  \<open>allocatable['cpu']\<close> and \<open>allocatable['memory']\<close> raise \<open>KeyError\<close> when missing.
\<close>

definition free_node_info ::
  "(string \<Rightarrow> error + rat) \<Rightarrow> v1_node \<Rightarrow> v1_pod list \<Rightarrow> error + node_info" where
  "free_node_info pq node pods =
     (let allocatable = nstatus_allocatable node in
      case node_used_loop pq (nmeta_name node) pods (0, 0, 0) of
        Inl e \<Rightarrow> Inl e
      | Inr (used_cpu, used_memory, used_gpu) \<Rightarrow>
     (case allocatable ''cpu'' of
        None \<Rightarrow> Inl KeyError
      | Some c \<Rightarrow>
     (case pq c of
        Inl e \<Rightarrow> Inl e
      | Inr cpu \<Rightarrow>
     (case allocatable ''memory'' of
        None \<Rightarrow> Inl KeyError
      | Some m \<Rightarrow>
     (case pq m of
        Inl e \<Rightarrow> Inl e
      | Inr mem \<Rightarrow>
     (case int_of (allocatable ''nvidia.com/gpu'') of
        Inl e \<Rightarrow> Inl e
      | Inr gpu \<Rightarrow>
          Inr \<lparr>node_name = nmeta_name node, node_cpu = cpu - used_cpu,
               node_memory = mem - used_memory, node_gpu = gpu - used_gpu,
               node_labels = nmeta_labels node\<rparr>))))))"

text \<open>
  The loop \<open>for node in nodes\<close> of \<open>find_schedulable_nodes\<close> with the dictionary
  \<open>nodes_info\<close> built so far. A node without the placement-group label and a node with
  an untolerated taint are passed over with \<open>continue\<close>; at a node with a \<open>Ready\<close>
  condition whose status is not \<open>True\<close> the source has \<open>break\<close>, which leaves the loop.
\<close>

fun nodes_loop ::
  "(string \<Rightarrow> error + rat) \<Rightarrow> (string option \<rightharpoonup> v1_toleration) \<Rightarrow> v1_pod list
     \<Rightarrow> v1_node list \<Rightarrow> (string \<times> node_info) list \<Rightarrow> error + (string \<times> node_info) list" where
  "nodes_loop pq d pods [] nodes_info = Inr nodes_info"
| "nodes_loop pq d pods (node # nodes) nodes_info =
     (if nmeta_labels node ''cloud.google.com/gke-placement-group'' = None
      then nodes_loop pq d pods nodes nodes_info
      else
        let skip_node = (case nspec_taints node of
                           None \<Rightarrow> False
                         | Some taints \<Rightarrow> taints_skip d taints)
        in if list_ex (\<lambda>condition. cond_type condition = ''Ready''
                                    \<and> cond_status condition \<noteq> ''True'')
                (nstatus_conditions node)
           then Inr nodes_info
           else if skip_node then nodes_loop pq d pods nodes nodes_info
           else (case free_node_info pq node pods of
                   Inl e \<Rightarrow> Inl e
                 | Inr node_info \<Rightarrow>
                     nodes_loop pq d pods nodes
                       (dict_set nodes_info (nmeta_name node) node_info)))"

definition find_schedulable_nodes ::
  "(string \<Rightarrow> error + rat) \<Rightarrow> v1_node list \<Rightarrow> v1_pod list \<Rightarrow> v1_toleration list option
     \<Rightarrow> error + (string \<times> node_info) list" where
  "find_schedulable_nodes pq nodes pods tolerated_taints =
     nodes_loop pq (toleration_dict tolerated_taints) pods nodes []"

subsection \<open>The pods waiting on a gate\<close>

text \<open>The loop over \<open>pod.spec.containers\<close> of \<open>find_schedulable_pods\<close>.\<close>

fun requests_loop ::
  "(string \<Rightarrow> error + rat) \<Rightarrow> v1_container list \<Rightarrow> rat \<times> rat \<times> int
     \<Rightarrow> error + (rat \<times> rat \<times> int)" where
  "requests_loop pq [] used = Inr used"
| "requests_loop pq (container # rest) used =
     (case add_requests pq container used of
        Inl e \<Rightarrow> Inl e
      | Inr used' \<Rightarrow> requests_loop pq rest used')"

text \<open>The dictionary stored in \<open>pods_to_schedule\<close> for a pod that carries the gate.\<close>

definition pod_entry :: "(string \<Rightarrow> error + rat) \<Rightarrow> v1_pod \<Rightarrow> error + pod_info" where
  "pod_entry pq pod =
     (let labels = meta_labels (metadata pod);
          index = (case labels of
                     None \<Rightarrow> None
                   | Some l \<Rightarrow> l ''batch.kubernetes.io/job-completion-index'');
          job = (case labels of None \<Rightarrow> None | Some l \<Rightarrow> l ''job-name'')
      in case requests_loop pq (containers (spec pod)) (0, 0, 0) of
           Inl e \<Rightarrow> Inl e
         | Inr (used_cpu, used_memory, used_gpu) \<Rightarrow>
             Inr \<lparr>pod_name = meta_name (metadata pod),
                  pod_namespace = meta_namespace (metadata pod),
                  pod_index = index,
                  pod_cpu = used_cpu, pod_memory = used_memory, pod_gpu = used_gpu,
                  pod_node_selector = node_selector (spec pod),
                  pod_spec = spec pod, pod_metadata = metadata pod,
                  job_name = job,
                  creation_time = creation_timestamp (metadata pod)\<rparr>)"

fun gates_loop ::
  "(string \<Rightarrow> error + rat) \<Rightarrow> v1_pod \<Rightarrow> string \<Rightarrow> scheduling_gate list
     \<Rightarrow> (string \<times> pod_info) list \<Rightarrow> error + (string \<times> pod_info) list" where
  "gates_loop pq pod gate_name [] pods_to_schedule = Inr pods_to_schedule"
| "gates_loop pq pod gate_name (gate # gates) pods_to_schedule =
     (if sg_name gate = gate_name then
        (case pod_entry pq pod of
           Inl e \<Rightarrow> Inl e
         | Inr entry \<Rightarrow>
             gates_loop pq pod gate_name gates
               (dict_set pods_to_schedule (meta_name (metadata pod)) entry))
      else gates_loop pq pod gate_name gates pods_to_schedule)"

fun pods_loop ::
  "(string \<Rightarrow> error + rat) \<Rightarrow> string \<Rightarrow> v1_pod list
     \<Rightarrow> (string \<times> pod_info) list \<Rightarrow> error + (string \<times> pod_info) list" where
  "pods_loop pq gate_name [] pods_to_schedule = Inr pods_to_schedule"
| "pods_loop pq gate_name (pod # pods) pods_to_schedule =
     (case scheduling_gates (spec pod) of
        None \<Rightarrow> pods_loop pq gate_name pods pods_to_schedule
      | Some gates \<Rightarrow>
          (case gates_loop pq pod gate_name gates pods_to_schedule of
             Inl e \<Rightarrow> Inl e
           | Inr pods_to_schedule' \<Rightarrow> pods_loop pq gate_name pods pods_to_schedule'))"

definition find_schedulable_pods ::
  "(string \<Rightarrow> error + rat) \<Rightarrow> v1_pod list \<Rightarrow> string \<Rightarrow> error + (string \<times> pod_info) list" where
  "find_schedulable_pods pq pods gate_name = pods_loop pq gate_name pods []"

subsection \<open>The API server and the commit of one pod\<close>

text \<open>
  The three calls made on the \<open>CoreV1Api\<close> client, over a cluster state \<open>'s\<close>. A call
  returns its value or raises; \<open>replace_namespaced_pod\<close> returns the state after the
  write.
\<close>

record 's core_v1_api =
  read_namespaced_pod :: "'s \<Rightarrow> string \<Rightarrow> string \<Rightarrow> error + v1_pod"
  replace_namespaced_pod :: "'s \<Rightarrow> string \<Rightarrow> string \<Rightarrow> v1_pod \<Rightarrow> error + 's"
  list_node :: "'s \<Rightarrow> error + v1_node list"

text \<open>
  A stateful function returns the state it leaves and the exception it raised, if
  any.
\<close>

type_synonym 's outcome = "'s \<times> error option"

text \<open>The clause \<open>except ApiException\<close>: that exception is printed, any other goes on.\<close>

definition except_api :: "error \<Rightarrow> error option" where
  "except_api e = (if e = ApiException then None else Some e)"

definition hostname_affinity :: "node_info \<Rightarrow> affinity" where
  "hostname_affinity node =
     Required_node_affinity
       [[\<lparr>expr_key = ''kubernetes.io/hostname'', expr_operator = ''In'',
          expr_values = [node_name node]\<rparr>]]"

definition schedule_pod_on_node ::
  "'s core_v1_api \<Rightarrow> 's \<Rightarrow> string \<Rightarrow> string \<Rightarrow> node_info \<Rightarrow> string \<Rightarrow> 's outcome" where
  "schedule_pod_on_node v1 s name namespace node gate_name =
     (case read_namespaced_pod v1 s name namespace of
        Inl e \<Rightarrow> (s, except_api e)
      | Inr pod \<Rightarrow>
          (case scheduling_gates (spec pod) of
             None \<Rightarrow> (s, Some TypeError)
           | Some gates \<Rightarrow>
               if list_ex (\<lambda>gate. sg_name gate = gate_name) gates then
                 let new_gates = filter (\<lambda>gate. sg_name gate \<noteq> gate_name) gates;
                     pod' = pod\<lparr>spec := (spec pod)\<lparr>spec_affinity := Some (hostname_affinity node),
                                                     scheduling_gates := Some new_gates\<rparr>\<rparr>
                 in (case replace_namespaced_pod v1 s name namespace pod' of
                       Inl e \<Rightarrow> (s, except_api e)
                     | Inr s' \<Rightarrow> (s', None))
               else (s, None)))"

subsection \<open>Scheduling the jobs of a gate\<close>

text \<open>The final loop \<open>for i in range(0, len(sorted_pods))\<close> of a job, from index \<open>i\<close>.\<close>

fun commit_loop ::
  "'s core_v1_api \<Rightarrow> string \<Rightarrow> node_info list \<Rightarrow> pod_info list \<Rightarrow> int list
     \<Rightarrow> nat list \<Rightarrow> 's \<Rightarrow> 's outcome" where
  "commit_loop v1 gate sorted_nodes sorted_pods best_assignment [] s = (s, None)"
| "commit_loop v1 gate sorted_nodes sorted_pods best_assignment (i # rest) s =
     (case py_index sorted_pods (int i) of
        Inl e \<Rightarrow> (s, Some e)
      | Inr pod \<Rightarrow>
     (case py_index best_assignment (int i) of
        Inl e \<Rightarrow> (s, Some e)
      | Inr k \<Rightarrow>
     (case py_index sorted_nodes k of
        Inl e \<Rightarrow> (s, Some e)
      | Inr node \<Rightarrow>
     (case schedule_pod_on_node v1 s (pod_name pod) (pod_namespace pod) node gate of
        (s', Some e) \<Rightarrow> (s', Some e)
      | (s', None) \<Rightarrow>
          commit_loop v1 gate sorted_nodes sorted_pods best_assignment rest s'))))"

text \<open>
  The body of the loop \<open>for job in sorted_jobs\<close>. No exception is caught here: the
  \<open>AssertionError\<close> of \<open>get_pods_taint_toleration\<close> and every other exception leave
  the loop. The result is \<open>None\<close> if the assignment search does not return.
\<close>

definition schedule_job ::
  "(string \<Rightarrow> error + rat) \<Rightarrow> 's core_v1_api \<Rightarrow> v1_node list \<Rightarrow> v1_pod list \<Rightarrow> string
     \<Rightarrow> pod_info list \<Rightarrow> 's \<Rightarrow> 's outcome option" where
  "schedule_job pq v1 nodes pods gate job s =
     (case py_index job 0 of
        Inl e \<Rightarrow> Some (s, Some e)
      | Inr first \<Rightarrow>
     (case get_pods_taint_toleration job of
        Inl e \<Rightarrow> Some (s, Some e)
      | Inr tolerated_taints \<Rightarrow>
     (case find_schedulable_nodes pq nodes pods (Some tolerated_taints) of
        Inl e \<Rightarrow> Some (s, Some e)
      | Inr nodes_to_schedule \<Rightarrow>
     (case sorted_pods_by_key job of
        Inl e \<Rightarrow> Some (s, Some e)
      | Inr sorted_pods \<Rightarrow>
          let sorted_nodes = sort_key node_topology_key (map snd nodes_to_schedule) in
          (case calculate_pods_assignment sorted_nodes sorted_pods of
             None \<Rightarrow> None
           | Some (Inl e) \<Rightarrow> Some (s, Some e)
           | Some (Inr best_assignment) \<Rightarrow>
               if best_assignment = [] then Some (s, None)
               else Some (commit_loop v1 gate sorted_nodes sorted_pods best_assignment
                            [0..<length sorted_pods] s))))))"

fun jobs_loop ::
  "(string \<Rightarrow> error + rat) \<Rightarrow> 's core_v1_api \<Rightarrow> v1_node list \<Rightarrow> v1_pod list \<Rightarrow> string
     \<Rightarrow> pod_info list list \<Rightarrow> 's \<Rightarrow> 's outcome option" where
  "jobs_loop pq v1 nodes pods gate [] s = Some (s, None)"
| "jobs_loop pq v1 nodes pods gate (job # sorted_jobs) s =
     (case schedule_job pq v1 nodes pods gate job s of
        None \<Rightarrow> None
      | Some (s', Some e) \<Rightarrow> Some (s', Some e)
      | Some (s', None) \<Rightarrow> jobs_loop pq v1 nodes pods gate sorted_jobs s')"

definition schedule_pod_with_gate ::
  "(string \<Rightarrow> error + rat) \<Rightarrow> 's core_v1_api \<Rightarrow> v1_pod list \<Rightarrow> string \<Rightarrow> 's
     \<Rightarrow> 's outcome option" where
  "schedule_pod_with_gate pq v1 pods gate s =
     (case find_schedulable_pods pq pods gate of
        Inl e \<Rightarrow> Some (s, Some e)
      | Inr pods_to_schedule \<Rightarrow>
     (case list_node v1 s of
        Inl e \<Rightarrow> Some (s, Some e)
      | Inr nodes \<Rightarrow>
          let jobs = split_pods_based_on_jobs (map snd pods_to_schedule) in
          (case sorted_jobs_by_time jobs of
             Inl e \<Rightarrow> Some (s, Some e)
           | Inr sorted_jobs \<Rightarrow> jobs_loop pq v1 nodes pods gate sorted_jobs s)))"

subsection \<open>Example inputs\<close>

text \<open>A node with all four topology labels in placement group \<open>pg\<close> and cluster \<open>c\<close>.\<close>

definition example_node :: "string \<Rightarrow> string \<Rightarrow> string \<Rightarrow> node_info" where
  "example_node n rack host =
     \<lparr>node_name = n, node_cpu = 8, node_memory = 64, node_gpu = 8,
      node_labels = map_of
        [(''cloud.google.com/gke-placement-group'', ''pg''),
         (''topology.gke.io/cluster'', ''c''),
         (''topology.gke.io/rack'', rack),
         (''topology.gke.io/host'', host)]\<rparr>"

text \<open>A pod of the default namespace that requests one cpu, one unit of memory and one gpu.\<close>

definition example_pod :: "string \<Rightarrow> (string \<times> string) list option \<Rightarrow> pod_info" where
  "example_pod n selector =
     \<lparr>pod_name = n, pod_namespace = ''default'', pod_index = None,
      pod_cpu = 1, pod_memory = 1, pod_gpu = 1, pod_node_selector = selector,
      pod_spec = \<lparr>containers = [], node_selector = selector, tolerations = None,
                  scheduling_gates = None, spec_node_name = None, spec_affinity = None\<rparr>,
      pod_metadata = \<lparr>meta_name = n, meta_namespace = ''default'', meta_labels = None,
                      creation_timestamp = None\<rparr>,
      job_name = None, creation_time = None\<rparr>"

text \<open>
  Five nodes sorted by topology key: two hosts of rack \<open>rA\<close>, one of rack \<open>rB\<close>, two of
  rack \<open>rC\<close>; and four identical pods, each schedulable on every node.
\<close>

definition five_nodes :: "node_info list" where
  "five_nodes =
     [example_node ''n0'' ''rA'' ''h0'', example_node ''n1'' ''rA'' ''h1'',
      example_node ''n2'' ''rB'' ''h2'',
      example_node ''n3'' ''rC'' ''h3'', example_node ''n4'' ''rC'' ''h4'']"

definition four_pods :: "pod_info list" where
  "four_pods =
     [example_pod ''p0'' None, example_pod ''p1'' None,
      example_pod ''p2'' None, example_pod ''p3'' None]"

text \<open>
  Four nodes of one rack with a label \<open>pool\<close>, and three pods of one job whose node
  selectors ask for the pools \<open>a\<close>, \<open>b\<close> and \<open>c\<close>.
\<close>

definition pool_node :: "string \<Rightarrow> string \<Rightarrow> string \<Rightarrow> node_info" where
  "pool_node n host pool =
     \<lparr>node_name = n, node_cpu = 8, node_memory = 64, node_gpu = 8,
      node_labels = map_of
        [(''cloud.google.com/gke-placement-group'', ''pg''),
         (''topology.gke.io/cluster'', ''c''),
         (''topology.gke.io/rack'', ''rA''),
         (''topology.gke.io/host'', host),
         (''pool'', pool)]\<rparr>"

definition pool_nodes :: "node_info list" where
  "pool_nodes =
     [pool_node ''n0'' ''h0'' ''b'', pool_node ''n1'' ''h1'' ''a'',
      pool_node ''n2'' ''h2'' ''b'', pool_node ''n3'' ''h3'' ''c'']"

definition pool_pods :: "pod_info list" where
  "pool_pods =
     [example_pod ''p0'' (Some [(''pool'', ''a'')]),
      example_pod ''p1'' (Some [(''pool'', ''b'')]),
      example_pod ''p2'' (Some [(''pool'', ''c'')])]"

text \<open>
  A cluster for the examples: the nodes and the pods by namespace and name. Reading or
  replacing a pod that does not exist raises \<open>ApiException\<close>. Quantities are written
  as plain integers.
\<close>

record cluster =
  cluster_nodes :: "v1_node list"
  cluster_pods :: "((string \<times> string) \<times> v1_pod) list"

definition cluster_api :: "cluster core_v1_api" where
  "cluster_api =
     \<lparr>read_namespaced_pod = (\<lambda>s name namespace.
        case map_of (cluster_pods s) (namespace, name) of
          None \<Rightarrow> Inl ApiException
        | Some pod \<Rightarrow> Inr pod),
      replace_namespaced_pod = (\<lambda>s name namespace pod.
        case map_of (cluster_pods s) (namespace, name) of
          None \<Rightarrow> Inl ApiException
        | Some old \<Rightarrow> Inr (s\<lparr>cluster_pods := dict_set (cluster_pods s) (namespace, name) pod\<rparr>)),
      list_node = (\<lambda>s. Inr (cluster_nodes s))\<rparr>"

definition plain_quantity :: "string \<Rightarrow> error + rat" where
  "plain_quantity q = (case py_int q of Inl e \<Rightarrow> Inl e | Inr n \<Rightarrow> Inr (of_int n))"

definition gated_pod ::
  "string \<Rightarrow> string \<Rightarrow> int \<Rightarrow> v1_toleration list option \<Rightarrow> string list \<Rightarrow> v1_pod" where
  "gated_pod name job created tols gates =
     \<lparr>metadata = \<lparr>meta_name = name, meta_namespace = ''default'',
                   meta_labels = Some [''job-name'' \<mapsto> job],
                   creation_timestamp = Some created\<rparr>,
      spec = \<lparr>containers = [\<lparr>requests = Some [''cpu'' \<mapsto> ''1'', ''memory'' \<mapsto> ''1'',
                                               ''nvidia.com/gpu'' \<mapsto> ''1'']\<rparr>],
               node_selector = None, tolerations = tols,
               scheduling_gates = Some (map V1PodSchedulingGate gates),
               spec_node_name = None, spec_affinity = None\<rparr>,
      status = None\<rparr>"

definition cluster_node :: "string \<Rightarrow> (string \<rightharpoonup> string) \<Rightarrow> string \<Rightarrow> v1_node" where
  "cluster_node name labels ready =
     \<lparr>nmeta_name = name, nmeta_labels = labels, nspec_taints = None,
      nstatus_conditions = [\<lparr>cond_type = ''Ready'', cond_status = ready\<rparr>],
      nstatus_allocatable = [''cpu'' \<mapsto> ''8'', ''memory'' \<mapsto> ''64'',
                             ''nvidia.com/gpu'' \<mapsto> ''8'']\<rparr>"

definition topology_labels :: "string \<Rightarrow> string \<Rightarrow> (string \<rightharpoonup> string)" where
  "topology_labels rack host =
     [''cloud.google.com/gke-placement-group'' \<mapsto> ''pg'', ''topology.gke.io/cluster'' \<mapsto> ''c'',
      ''topology.gke.io/rack'' \<mapsto> rack, ''topology.gke.io/host'' \<mapsto> host]"

definition toleration :: "string \<Rightarrow> v1_toleration" where
  "toleration k =
     \<lparr>tol_key = Some k, tol_operator = Some ''Exists'', tol_value = None,
      tol_effect = Some ''NoSchedule'', tol_seconds = None\<rparr>"

definition pod_gates :: "cluster \<Rightarrow> (string \<times> string list option) list" where
  "pod_gates s =
     map (\<lambda>(k, pod). (snd k, map_option (map sg_name) (scheduling_gates (spec pod))))
       (cluster_pods s)"

definition gate_cluster :: cluster where
  "gate_cluster =
     \<lparr>cluster_nodes = [],
      cluster_pods =
        [((''default'', ''a-0''),
          gated_pod ''a-0'' ''a'' 1 None [''auto-x'', ''other-y'', ''auto-z'', ''auto-x''])]\<rparr>"

definition cluster_of :: "v1_node list \<Rightarrow> v1_pod list \<Rightarrow> cluster" where
  "cluster_of nodes pods =
     \<lparr>cluster_nodes = nodes,
      cluster_pods = map (\<lambda>pod. ((meta_namespace (metadata pod), meta_name (metadata pod)), pod))
                       pods\<rparr>"

text \<open>The result of a tick on a cluster: the gates left on every pod, and the exception.\<close>

definition tick ::
  "v1_node list \<Rightarrow> v1_pod list \<Rightarrow> string
     \<Rightarrow> ((string \<times> string list option) list \<times> error option) option" where
  "tick nodes pods gate =
     map_option (\<lambda>(s, e). (pod_gates s, e))
       (schedule_pod_with_gate plain_quantity cluster_api pods gate (cluster_of nodes pods))"

definition schedulable_keys :: "v1_node list \<Rightarrow> error + (string \<times> string list) list" where
  "schedulable_keys nodes =
     (case find_schedulable_nodes plain_quantity nodes [] (Some []) of
        Inl e \<Rightarrow> Inl e
      | Inr nodes_info \<Rightarrow> Inr (map (\<lambda>(name, info). (name, node_topology_key info)) nodes_info))"

definition node_n1 :: v1_node where
  "node_n1 = cluster_node ''n1'' (topology_labels ''r'' ''h1'') ''True''"

definition node_n2 :: v1_node where
  "node_n2 = cluster_node ''n2'' (topology_labels ''r'' ''h2'') ''True''"

definition not_ready_node :: v1_node where
  "not_ready_node = cluster_node ''n0'' (topology_labels ''r'' ''h0'') ''False''"

definition no_group_node :: v1_node where
  "no_group_node =
     cluster_node ''p0''
       [''topology.gke.io/cluster'' \<mapsto> ''c'', ''topology.gke.io/rack'' \<mapsto> ''r'',
        ''topology.gke.io/host'' \<mapsto> ''h5''] ''True''"

definition no_cluster_node :: v1_node where
  "no_cluster_node =
     cluster_node ''p1''
       [''cloud.google.com/gke-placement-group'' \<mapsto> ''pg'', ''topology.gke.io/rack'' \<mapsto> ''r'',
        ''topology.gke.io/host'' \<mapsto> ''h6''] ''True''"

definition no_rack_node :: v1_node where
  "no_rack_node =
     cluster_node ''p2''
       [''cloud.google.com/gke-placement-group'' \<mapsto> ''pg'', ''topology.gke.io/cluster'' \<mapsto> ''c'',
        ''topology.gke.io/host'' \<mapsto> ''h7''] ''True''"

definition no_host_node :: v1_node where
  "no_host_node =
     cluster_node ''p3''
       [''cloud.google.com/gke-placement-group'' \<mapsto> ''pg'', ''topology.gke.io/cluster'' \<mapsto> ''c'',
        ''topology.gke.io/rack'' \<mapsto> ''r''] ''True''"

definition two_pod_job :: "v1_pod list" where
  "two_pod_job =
     [gated_pod ''a-0'' ''a'' 1 None [''g''], gated_pod ''a-1'' ''a'' 1 None [''g'']]"

definition interleaved_pods :: "v1_pod list" where
  "interleaved_pods =
     [gated_pod ''a-0'' ''a'' 1 None [''g''], gated_pod ''b-0'' ''b'' 2 None [''g''],
      gated_pod ''a-1'' ''a'' 1 None [''g'']]"

definition adjacent_pods :: "v1_pod list" where
  "adjacent_pods =
     [gated_pod ''a-0'' ''a'' 1 None [''g''], gated_pod ''a-1'' ''a'' 1 None [''g''],
      gated_pod ''b-0'' ''b'' 2 None [''g'']]"

definition job_groups :: "v1_pod list \<Rightarrow> string \<Rightarrow> error + string list list" where
  "job_groups pods gate =
     (case find_schedulable_pods plain_quantity pods gate of
        Inl e \<Rightarrow> Inl e
      | Inr pods_to_schedule \<Rightarrow>
          Inr (map (map pod_name) (split_pods_based_on_jobs (map snd pods_to_schedule))))"

text \<open>
  The condition under which the assertion of \<open>get_pods_taint_toleration\<close> fails:
  after the leading pods whose tolerations are \<open>None\<close>, some pod has tolerations
  other than those of the first remaining pod.
\<close>

definition tolerations_conflict :: "pod_info list \<Rightarrow> bool" where
  "tolerations_conflict job =
     (let rest = dropWhile (\<lambda>pod. tolerations (pod_spec pod) = None) job
      in \<exists>pod \<in> set rest. tolerations (pod_spec pod) \<noteq> tolerations (pod_spec (hd rest)))"

definition tolerating_pod :: "string \<Rightarrow> v1_toleration list option \<Rightarrow> pod_info" where
  "tolerating_pod n tols =
     (example_pod n None)\<lparr>pod_spec := (pod_spec (example_pod n None))\<lparr>tolerations := tols\<rparr>\<rparr>"

definition mixed_pods :: "v1_pod list" where
  "mixed_pods =
     [gated_pod ''a-0'' ''a'' 1 (Some [toleration ''k'']) [''g''],
      gated_pod ''a-1'' ''a'' 1 (Some []) [''g''],
      gated_pod ''b-0'' ''b'' 2 None [''g'']]"

definition late_pods :: "v1_pod list" where
  "late_pods =
     [gated_pod ''a-0'' ''a'' 1 None [''g''],
      gated_pod ''a-1'' ''a'' 1 (Some [toleration ''k'']) [''g''],
      gated_pod ''b-0'' ''b'' 2 None [''g'']]"

section \<open>Properties\<close>

subsection \<open>The distance law\<close>

lemma topology_key_four:
  "length (node_topology_key n) = 4 \<Longrightarrow> \<exists>a b c d. node_topology_key n = [a, b, c, d]"
  by (auto simp: node_topology_key_def Let_def split: if_splits)

lemma distance_loop_four:
  "distance_loop [a, b, c, d] [a', b', c', d'] 0 r =
     Inr (if a \<noteq> a' then r else if b \<noteq> b' then r / 100 else if c \<noteq> c' then r / 10000
          else if d \<noteq> d' then r / 1000000 else 0)"
  by (simp add: distance_loop.simps py_index_def)

text \<open>
  Claim C4. For two nodes whose topology keys are full 4-tuples, the distance is 0 when
  the keys are equal, and \<open>10 ^ (6 - 2 * i)\<close> when \<open>i\<close> is the first coordinate at which
  they differ: 1000000 for the placement group, 10000 for the cluster, 100 for the rack
  and 1 for the host.
\<close>

theorem node_topology_distance_law:
  assumes "length (node_topology_key node1) = 4" and "length (node_topology_key node2) = 4"
  shows "(node_topology_key node1 = node_topology_key node2 \<longrightarrow>
            node_topology_distance node1 node2 = Inr 0)
       \<and> (\<forall>i<4. take i (node_topology_key node1) = take i (node_topology_key node2)
                \<and> node_topology_key node1 ! i \<noteq> node_topology_key node2 ! i \<longrightarrow>
            node_topology_distance node1 node2 = Inr (10 ^ (6 - 2 * i)))"
proof -
  obtain a b c d where k1: "node_topology_key node1 = [a, b, c, d]"
    using topology_key_four[OF assms(1)] by blast
  obtain a' b' c' d' where k2: "node_topology_key node2 = [a', b', c', d']"
    using topology_key_four[OF assms(2)] by blast
  have lt4: "\<And>i::nat. i < 4 \<Longrightarrow> i = 0 \<or> i = 1 \<or> i = 2 \<or> i = 3" by arith
  show ?thesis
    unfolding node_topology_distance_def k1 k2 distance_loop_four
    by (auto dest!: lt4 simp: take_Suc_conv_app_nth numeral_2_eq_2 numeral_3_eq_3)
qed

lemma example_node_key:
  "node_topology_key (example_node n rack host) = [''pg'', ''c'', rack, host]"
  by (simp add: node_topology_key_def example_node_def)

theorem node_topology_distance_law_witness:
  "length (node_topology_key (example_node ''n0'' ''rA'' ''h0'')) = 4
   \<and> length (node_topology_key (example_node ''n2'' ''rB'' ''h2'')) = 4
   \<and> node_topology_distance (example_node ''n0'' ''rA'' ''h0'') (example_node ''n0'' ''rA'' ''h0'')
       = Inr 0
   \<and> node_topology_distance (example_node ''n0'' ''rA'' ''h0'') (example_node ''n2'' ''rB'' ''h2'')
       = Inr 100"
proof -
  let ?a = "example_node ''n0'' ''rA'' ''h0''" and ?b = "example_node ''n2'' ''rB'' ''h2''"
  have la: "length (node_topology_key ?a) = 4" and lb: "length (node_topology_key ?b) = 4"
    by (simp_all add: example_node_key)
  have same: "node_topology_distance ?a ?a = Inr 0"
    using node_topology_distance_law[OF la la] by simp
  have "\<forall>i<4. take i (node_topology_key ?a) = take i (node_topology_key ?b)
                \<and> node_topology_key ?a ! i \<noteq> node_topology_key ?b ! i \<longrightarrow>
            node_topology_distance ?a ?b = Inr (10 ^ (6 - 2 * i))"
    using node_topology_distance_law[OF la lb] by blast
  then have "take 2 (node_topology_key ?a) = take 2 (node_topology_key ?b)
                \<and> node_topology_key ?a ! 2 \<noteq> node_topology_key ?b ! 2 \<longrightarrow>
            node_topology_distance ?a ?b = Inr (10 ^ (6 - 2 * 2))"
    by (rule allE[where x = 2]) simp
  then have "node_topology_distance ?a ?b = Inr 100"
    by (simp add: example_node_key)
  with la lb same show ?thesis by simp
qed

subsection \<open>The assignment search returns, and what it returns is feasible\<close>

lemma inner_body_eq:
  assumes "0 \<le> i" "i < int (length a)" "length pods = length a"
  shows "inner_body nodes pods a i =
     (let v = a ! nat i + 1; a' = a[nat i := v] in
      if v = int (length nodes) then Inr (a', Break)
      else if v > int (length nodes) then Inl IndexError
      else if 0 \<le> v \<and> can_schedule (nodes ! nat v) (pods ! nat i) then Inr (a', Continue (i - 1) True)
      else if i < int (length a) - 1 \<and> v = a ! nat (i + 1) - 1 then Inr (a', Continue i False)
      else Inr (a', Continue i True))"
proof -
  have ne: "i < int (length a) - 1 \<Longrightarrow> nat (i + 1) \<noteq> nat i" using assms by linarith
  show ?thesis
    using assms ne
    by (auto simp: inner_body_def py_index_def py_store_def Let_def split: sum.splits bool.splits)
qed

lemma strict_update:
  fixes a :: "int list"
  assumes "sorted_wrt (<) a" "k < length a" "Suc k < length a \<longrightarrow> a ! k + 1 < a ! Suc k"
  shows "sorted_wrt (<) (a[k := a ! k + 1])"
  unfolding sorted_wrt_iff_nth_less
proof (intro allI impI)
  fix p q assume pq: "p < q" "q < length (a[k := a ! k + 1])"
  then have q: "q < length a" by simp
  have base: "a ! p < a ! q" using assms(1) pq(1) q by (simp add: sorted_wrt_iff_nth_less)
  show "a[k := a ! k + 1] ! p < a[k := a ! k + 1] ! q"
  proof (cases "p = k")
    case True
    then have sk: "Suc k < length a" using pq(1) q by simp
    have "a ! Suc k \<le> a ! q"
    proof (cases "q = Suc k")
      case True then show ?thesis by simp
    next
      case False
      then have "Suc k < q" using True pq(1) by simp
      then show ?thesis using assms(1) q by (simp add: sorted_wrt_iff_nth_less less_imp_le)
    qed
    then show ?thesis using True assms(3) sk pq(1) q by simp
  next
    case False
    then show ?thesis using base pq(1) q assms(2) by (cases "q = k") simp_all
  qed
qed

lemma sum_list_bump:
  fixes xs :: "int list"
  shows "k < length xs \<Longrightarrow> sum_list (xs[k := xs ! k + 1]) = sum_list xs + 1"
  by (induction xs arbitrary: k) (auto split: nat.splits)

lemma sum_list_le_bound:
  fixes xs :: "int list"
  shows "\<forall>x\<in>set xs. x \<le> c \<Longrightarrow> sum_list xs \<le> int (length xs) * c"
proof (induction xs)
  case Nil
  then show ?case by simp
next
  case (Cons x xs)
  then have "sum_list xs \<le> int (length xs) * c" and "x \<le> c" by simp_all
  then show ?case by (simp add: algebra_simps)
qed

lemma strict_below_last:
  fixes a :: "int list"
  assumes "sorted_wrt (<) a" "j < length a"
  shows "a ! j \<le> a ! (length a - 1)"
proof (cases "j = length a - 1")
  case True then show ?thesis by simp
next
  case False
  then have "j < length a - 1" using assms(2) by simp
  then show ?thesis using assms by (simp add: sorted_wrt_iff_nth_less less_imp_le)
qed

lemma measure_pos:
  fixes a :: "int list"
  assumes "sorted_wrt (<) a" "a \<noteq> []" "a ! (length a - 1) < m"
  shows "sum_list a < int (length a) * m"
proof -
  have "\<forall>x\<in>set a. x \<le> m - 1"
  proof
    fix x assume "x \<in> set a"
    then obtain j where "j < length a" "x = a ! j" by (auto simp: in_set_conv_nth)
    then show "x \<le> m - 1" using strict_below_last[OF assms(1), of j] assms(3) by simp
  qed
  then have "sum_list a \<le> int (length a) * (m - 1)" by (rule sum_list_le_bound)
  moreover have "int (length a) * (m - 1) < int (length a) * m" using assms(2) by (simp add: algebra_simps)
  ultimately show ?thesis by linarith
qed

lemma inner_post_trans:
  assumes "inner_post nodes pods a' a'' ok" "\<forall>j<length pods. a ! j \<le> a' ! j"
  shows "inner_post nodes pods a a'' ok"
  using assms unfolding inner_post_def by (meson order_trans)

lemma inner_loop_total:
  "inner_inv nodes pods a i \<Longrightarrow>
     \<exists>a' ok. inner_loop nodes pods a i True = Some (Inr (a', ok))
       \<and> inner_post nodes pods a a' ok
       \<and> (i = int (length pods) - 1 \<longrightarrow> a ! (length pods - 1) < a' ! (length pods - 1))"
proof (induction "nat (int (length a) * int (length nodes) - sum_list a)"
         arbitrary: a i rule: less_induct)
  case less
  note inv = less.prems
  have len: "length a = length pods" and ne: "pods \<noteq> []" and srt: "sorted_wrt (<) a"
    and top: "a ! (length pods - 1) < int (length nodes)"
    and lo: "- 1 \<le> i" and hi: "i < int (length pods)"
    and gap: "0 \<le> i \<and> i + 1 < int (length pods) \<longrightarrow> a ! nat i + 1 < a ! nat (i + 1)"
    and above: "\<forall>j. i < int j \<and> j < length pods \<longrightarrow> accepted nodes pods a j"
    using inv unfolding inner_inv_def by simp_all
  show ?case
  proof (cases "0 \<le> i")
    case False
    then have i: "i = - 1" using lo by simp
    have run: "inner_loop nodes pods a i True = Some (Inr (a, True))"
      using False by (subst inner_loop.simps) simp
    have "\<forall>j<length pods. accepted nodes pods a j" using above i by simp
    then have "inner_post nodes pods a a True"
      using len srt top unfolding inner_post_def by simp
    then show ?thesis using run i ne by auto
  next
    case True
    define k where "k = nat i"
    define v where "v = a ! k + 1"
    define a' where "a' = a[k := v]"
    have k: "k < length pods" "int k = i" using True hi by (simp_all add: k_def)
    have body: "inner_body nodes pods a i =
       (if v = int (length nodes) then Inr (a', Break)
        else if v > int (length nodes) then Inl IndexError
        else if 0 \<le> v \<and> can_schedule (nodes ! nat v) (pods ! k) then Inr (a', Continue (i - 1) True)
        else if i < int (length a) - 1 \<and> v = a ! nat (i + 1) - 1 then Inr (a', Continue i False)
        else Inr (a', Continue i True))"
    proof -
      have "i < int (length a)" using hi len by simp
      from inner_body_eq[OF True this len[symmetric], of nodes]
      show ?thesis unfolding v_def a'_def k_def Let_def .
    qed
    have below: "a ! k \<le> a ! (length pods - 1)"
      using strict_below_last[OF srt, of k] k len by simp
    have v_le: "v \<le> int (length nodes)" using below top by (simp add: v_def)
    have len': "length a' = length pods" using len by (simp add: a'_def)
    have gapk: "Suc k < length a \<longrightarrow> a ! k + 1 < a ! Suc k"
    proof
      assume "Suc k < length a"
      then have "0 \<le> i \<and> i + 1 < int (length pods)" using k len by linarith
      moreover have "nat (i + 1) = Suc k" using True by (simp add: k_def nat_add_distrib)
      ultimately show "a ! k + 1 < a ! Suc k" using gap by (simp add: k_def)
    qed
    have srt': "sorted_wrt (<) a'"
      unfolding a'_def v_def using strict_update[OF srt _ gapk] k len by simp
    have mono: "\<forall>j<length pods. a ! j \<le> a' ! j"
      using len k by (auto simp: a'_def v_def nth_list_update)
    have sum': "sum_list a' = sum_list a + 1"
    proof -
      have "k < length a" using k len by simp
      from sum_list_bump[OF this] show ?thesis by (simp add: a'_def v_def)
    qed
    have pos: "sum_list a < int (length a) * int (length nodes)"
    proof -
      have "a \<noteq> []" using ne len by auto
      moreover have "a ! (length a - 1) < int (length nodes)" using top len by simp
      ultimately show ?thesis using measure_pos[OF srt] by blast
    qed
    have meas: "nat (int (length a') * int (length nodes) - sum_list a')
                  < nat (int (length a) * int (length nodes) - sum_list a)"
      using sum' pos len len' by simp
    have keq: "i = int (length pods) - 1 \<longleftrightarrow> k = length pods - 1"
      using k ne by (cases pods) auto
    have topk: "i = int (length pods) - 1 \<Longrightarrow> a' ! (length pods - 1) = v"
      using k len keq by (simp add: a'_def)
    have topk': "i \<noteq> int (length pods) - 1 \<Longrightarrow> a' ! (length pods - 1) = a ! (length pods - 1)"
      using k len keq by (simp add: a'_def)
    consider (brk) "v = int (length nodes)"
      | (acc) "v < int (length nodes)" "0 \<le> v" "can_schedule (nodes ! nat v) (pods ! k)"
      | (stuck) "v < int (length nodes)" "\<not> (0 \<le> v \<and> can_schedule (nodes ! nat v) (pods ! k))"
          "i < int (length a) - 1 \<and> v = a ! nat (i + 1) - 1"
      | (again) "v < int (length nodes)" "\<not> (0 \<le> v \<and> can_schedule (nodes ! nat v) (pods ! k))"
          "\<not> (i < int (length a) - 1 \<and> v = a ! nat (i + 1) - 1)"
      using v_le by fastforce
    then show ?thesis
    proof cases
      case brk
      have last: "i = int (length pods) - 1"
      proof (rule ccontr)
        assume "i \<noteq> int (length pods) - 1"
        then have nx: "0 \<le> i \<and> i + 1 < int (length pods)" using True hi by simp
        then have "a ! k + 1 < a ! nat (i + 1)" using gap by (simp add: k_def)
        moreover have "a ! nat (i + 1) \<le> a ! (length pods - 1)"
        proof -
          have "nat (i + 1) < length a" using nx len by linarith
          from strict_below_last[OF srt this] show ?thesis using len by simp
        qed
        ultimately show False using top brk by (simp add: v_def)
      qed
      have run: "inner_loop nodes pods a i True = Some (Inr (a', True))"
        using True brk by (subst inner_loop.simps) (simp add: body)
      have "inner_post nodes pods a a' True"
        unfolding inner_post_def using len' srt' mono topk[OF last] brk by simp
      moreover have "a ! (length pods - 1) < a' ! (length pods - 1)"
        using topk[OF last] keq last by (simp add: v_def)
      ultimately show ?thesis using run by blast
    next
      case acc
      have run: "inner_loop nodes pods a i True = inner_loop nodes pods a' (i - 1) True"
        using True acc by (subst inner_loop.simps) (simp add: body)
      have top': "a' ! (length pods - 1) < int (length nodes)"
        using topk topk' acc(1) top by (cases "i = int (length pods) - 1") simp_all
      have acck: "accepted nodes pods a' k"
        using acc k len by (simp add: accepted_def a'_def)
      have acc': "\<forall>j. i - 1 < int j \<and> j < length pods \<longrightarrow> accepted nodes pods a' j"
      proof (intro allI impI)
        fix j assume j: "i - 1 < int j \<and> j < length pods"
        show "accepted nodes pods a' j"
        proof (cases "j = k")
          case True then show ?thesis using acck by simp
        next
          case False
          then have "i < int j" using j k by linarith
          then have "accepted nodes pods a j" using above j by simp
          then show ?thesis using False by (simp add: accepted_def a'_def)
        qed
      qed
      have gap': "0 \<le> i - 1 \<and> i - 1 + 1 < int (length pods)
                    \<longrightarrow> a' ! nat (i - 1) + 1 < a' ! nat (i - 1 + 1)"
      proof
        assume h: "0 \<le> i - 1 \<and> i - 1 + 1 < int (length pods)"
        then have lt: "nat (i - 1) < k" unfolding k_def by linarith
        then have "a ! nat (i - 1) < a ! k"
          using srt k len by (simp add: sorted_wrt_iff_nth_less)
        moreover have "a' ! nat (i - 1) = a ! nat (i - 1)" using lt by (simp add: a'_def)
        moreover have "a' ! nat (i - 1 + 1) = v" using k len by (simp add: a'_def k_def)
        ultimately show "a' ! nat (i - 1) + 1 < a' ! nat (i - 1 + 1)" by (simp add: v_def)
      qed
      have inv': "inner_inv nodes pods a' (i - 1)"
        unfolding inner_inv_def using len' ne srt' top' True hi gap' acc' by simp
      from less.hyps[OF meas inv'] obtain a'' ok where
        r: "inner_loop nodes pods a' (i - 1) True = Some (Inr (a'', ok))"
        and p: "inner_post nodes pods a' a'' ok"
        by blast
      have p': "inner_post nodes pods a a'' ok" using inner_post_trans[OF p mono] .
      have "i = int (length pods) - 1 \<longrightarrow> a ! (length pods - 1) < a'' ! (length pods - 1)"
      proof
        assume last: "i = int (length pods) - 1"
        have "a' ! (length pods - 1) \<le> a'' ! (length pods - 1)"
          using p ne unfolding inner_post_def by simp
        then show "a ! (length pods - 1) < a'' ! (length pods - 1)"
          using topk[OF last] keq last by (simp add: v_def)
      qed
      then show ?thesis using run r p' by simp
    next
      case stuck
      have b: "inner_body nodes pods a i = Inr (a', Continue i False)"
        unfolding body using stuck by (simp only: if_True if_False simp_thms split: if_splits) auto
      have step: "inner_loop nodes pods a i True = inner_loop nodes pods a' i False"
        using True by (subst inner_loop.simps) (simp add: b)
      have "inner_loop nodes pods a' i False = Some (Inr (a', False))"
        by (subst inner_loop.simps) simp
      with step have run: "inner_loop nodes pods a i True = Some (Inr (a', False))"
        by simp
      have nl: "i \<noteq> int (length pods) - 1" using stuck(3) len by simp
      have "inner_post nodes pods a a' False"
        unfolding inner_post_def using len' srt' mono topk'[OF nl] top by simp
      then show ?thesis using run nl by blast
    next
      case again
      have b: "inner_body nodes pods a i = Inr (a', Continue i True)"
        unfolding body using again by (simp only: if_True if_False simp_thms split: if_splits) auto
      have run: "inner_loop nodes pods a i True = inner_loop nodes pods a' i True"
        using True by (subst inner_loop.simps) (simp add: b)
      have top': "a' ! (length pods - 1) < int (length nodes)"
        using topk topk' again(1) top by (cases "i = int (length pods) - 1") simp_all
      have acc': "\<forall>j. i < int j \<and> j < length pods \<longrightarrow> accepted nodes pods a' j"
      proof (intro allI impI)
        fix j assume j: "i < int j \<and> j < length pods"
        then have "j \<noteq> k" using k by linarith
        moreover have "accepted nodes pods a j" using above j by simp
        ultimately show "accepted nodes pods a' j" by (simp add: accepted_def a'_def)
      qed
      have gap': "0 \<le> i \<and> i + 1 < int (length pods) \<longrightarrow> a' ! nat i + 1 < a' ! nat (i + 1)"
      proof
        assume h: "0 \<le> i \<and> i + 1 < int (length pods)"
        then have ne1: "nat (i + 1) \<noteq> k" unfolding k_def by linarith
        have "a ! k + 1 < a ! nat (i + 1)" using gap h by (simp add: k_def)
        moreover have "v \<noteq> a ! nat (i + 1) - 1" using again(3) h len by simp
        moreover have "a' ! nat (i + 1) = a ! nat (i + 1)" using ne1 by (simp add: a'_def)
        moreover have "a' ! nat i = v" using k len by (simp add: a'_def k_def)
        ultimately show "a' ! nat i + 1 < a' ! nat (i + 1)" by (simp add: v_def)
      qed
      have inv': "inner_inv nodes pods a' i"
        unfolding inner_inv_def using len' ne srt' top' lo hi gap' acc' by simp
      from less.hyps[OF meas inv'] obtain a'' ok where
        r: "inner_loop nodes pods a' i True = Some (Inr (a'', ok))"
        and p: "inner_post nodes pods a' a'' ok"
        by blast
      have p': "inner_post nodes pods a a'' ok" using inner_post_trans[OF p mono] .
      have "i = int (length pods) - 1 \<longrightarrow> a ! (length pods - 1) < a'' ! (length pods - 1)"
      proof
        assume last: "i = int (length pods) - 1"
        have "a' ! (length pods - 1) \<le> a'' ! (length pods - 1)"
          using p ne unfolding inner_post_def by simp
        then show "a ! (length pods - 1) < a'' ! (length pods - 1)"
          using topk[OF last] keq last by (simp add: v_def)
      qed
      then show ?thesis using run r p' by simp
    qed
  qed
qed

lemma py_index_last:
  "xs \<noteq> [] \<Longrightarrow> py_index xs (- 1) = Inr (xs ! (length xs - 1))"
  by (cases xs) (auto simp: py_index_def nat_diff_distrib')

lemma outer_loop_total:
  assumes "length a = length pods" "pods \<noteq> []" "sorted_wrt (<) a"
    "a ! (length pods - 1) < int (length nodes)"
    "best = [] \<or> good_assignment nodes pods best"
  shows "\<exists>r. outer_loop nodes pods a best m = Some r
           \<and> (\<forall>b. r = Inr b \<longrightarrow> b = [] \<or> good_assignment nodes pods b)"
  using assms
proof (induction "nat (int (length nodes) - a ! (length pods - 1))"
         arbitrary: a best m rule: less_induct)
  case less
  note len = less.prems(1) and ne = less.prems(2) and srt = less.prems(3)
    and top = less.prems(4) and bst = less.prems(5)
  have inv: "inner_inv nodes pods a (int (length a) - 1)"
    unfolding inner_inv_def using len ne srt top by (cases pods) auto
  from inner_loop_total[OF inv] obtain a' ok where
    r: "inner_loop nodes pods a (int (length a) - 1) True = Some (Inr (a', ok))"
    and p: "inner_post nodes pods a a' ok"
    and up: "a ! (length pods - 1) < a' ! (length pods - 1)"
    using len by auto
  have len': "length a' = length pods" and srt': "sorted_wrt (<) a'"
    and top': "a' ! (length pods - 1) \<le> int (length nodes)"
    and all': "ok \<and> a' ! (length pods - 1) \<noteq> int (length nodes)
                 \<longrightarrow> (\<forall>j<length pods. accepted nodes pods a' j)"
    using p unfolding inner_post_def by simp_all
  have lastv: "py_index a' (- 1) = Inr (a' ! (length pods - 1))"
  proof -
    have "a' \<noteq> []" using len' ne by auto
    from py_index_last[OF this] show ?thesis using len' by simp
  qed
  show ?case
  proof (cases "a' ! (length pods - 1) = int (length nodes)")
    case True
    have "outer_loop nodes pods a best m = Some (Inr best)"
      using True by (subst outer_loop.simps) (simp add: r lastv)
    then show ?thesis using bst by simp
  next
    case False
    then have lt: "a' ! (length pods - 1) < int (length nodes)" using top' by simp
    have meas: "nat (int (length nodes) - a' ! (length pods - 1))
                  < nat (int (length nodes) - a ! (length pods - 1))"
      using up lt by simp
    have rec: "\<And>best' m'. best' = [] \<or> good_assignment nodes pods best' \<Longrightarrow>
        \<exists>r. outer_loop nodes pods a' best' m' = Some r
           \<and> (\<forall>b. r = Inr b \<longrightarrow> b = [] \<or> good_assignment nodes pods b)"
      using less.hyps[OF meas len' ne srt' lt] by blast
    show ?thesis
    proof (cases ok)
      case no: False
      have "outer_loop nodes pods a best m = outer_loop nodes pods a' best m"
        using False no by (subst outer_loop.simps) (simp add: r lastv)
      then show ?thesis using rec[OF bst] by simp
    next
      case yes: True
      have good': "good_assignment nodes pods a'"
        unfolding good_assignment_def using len' srt' all' yes False by simp
      show ?thesis
      proof (cases "assignment_distance nodes pods a'")
        case (Inl e)
        have "outer_loop nodes pods a best m = Some (Inl e)"
          using False yes by (subst outer_loop.simps) (simp add: r lastv Inl)
        then show ?thesis by simp
      next
        case (Inr d)
        show ?thesis
        proof (cases "d < m")
          case True
          have "outer_loop nodes pods a best m = outer_loop nodes pods a' a' d"
            using False yes True by (subst outer_loop.simps) (simp add: r lastv Inr)
          then show ?thesis using rec[of a' d] good' by simp
        next
          case lower: False
          have "outer_loop nodes pods a best m = outer_loop nodes pods a' best m"
            using False yes lower by (subst outer_loop.simps) (simp add: r lastv Inr)
          then show ?thesis using rec[OF bst] by simp
        qed
      qed
    qed
  qed
qed

lemma initial_nth:
  "j < n \<Longrightarrow> map (\<lambda>i. - int i) (rev [1..<n + 1]) ! j = int j - int n"
  by (simp add: rev_nth del: upt_Suc)

lemma initial_length: "length (map (\<lambda>i. - int i) (rev [1..<n + 1])) = n"
  by (simp del: upt_Suc)

lemma initial_sorted: "sorted_wrt (<) (map (\<lambda>i. - int i) (rev [1..<n + 1]))"
  unfolding sorted_wrt_iff_nth_less
proof (intro allI impI)
  fix i j assume "i < j" "j < length (map (\<lambda>i. - int i) (rev [1..<n + 1]))"
  then have "i < n" "j < n" by (simp_all only: initial_length)
  from initial_nth[OF this(1)] initial_nth[OF this(2)] \<open>i < j\<close>
  show "map (\<lambda>i. - int i) (rev [1..<n + 1]) ! i < map (\<lambda>i. - int i) (rev [1..<n + 1]) ! j"
    by linarith
qed

lemma calculate_total:
  "\<exists>r. calculate_pods_assignment nodes pods = Some r
      \<and> (\<forall>b. r = Inr b \<longrightarrow> b = [] \<or> good_assignment nodes pods b)"
proof (cases "pods = []")
  case True
  have "inner_loop nodes [] [] (- 1) True = Some (Inr ([], True))"
    by (subst inner_loop.simps) simp
  then have "calculate_pods_assignment nodes pods = Some (Inl IndexError)"
    unfolding calculate_pods_assignment_def using True
    by (subst outer_loop.simps) (simp add: py_index_def)
  then show ?thesis by simp
next
  case False
  let ?a = "map (\<lambda>i. - int i) (rev [1..<length pods + 1])"
  have l: "length ?a = length pods" by (rule initial_length)
  have "length pods - 1 < length pods" using False by (cases pods) auto
  from initial_nth[OF this] have t: "?a ! (length pods - 1) < int (length nodes)"
    using False by (cases pods) (auto simp del: upt_Suc)
  show ?thesis
    unfolding calculate_pods_assignment_def
    using outer_loop_total[OF l False initial_sorted t, of "[]" 1000000000] by simp
qed

subsection \<open>Feasibility and monotonicity of the returned assignment\<close>

lemma can_schedule_iff:
  "can_schedule node pod \<longleftrightarrow>
     (\<forall>(k, v)\<in>set (case pod_node_selector pod of None \<Rightarrow> [] | Some items \<Rightarrow> items).
         node_labels node k = Some v)
     \<and> node_cpu node \<ge> pod_cpu pod
     \<and> node_memory node \<ge> pod_memory pod
     \<and> node_gpu node \<ge> pod_gpu pod"
  by (auto simp: can_schedule_def Let_def list_ex_iff split: option.splits)

text \<open>
  Claim C2. The search always returns (an assignment or an exception), and in every
  assignment it returns, each position \<open>i\<close> holds an index of a sorted node on which pod
  \<open>i\<close> is feasible: \<open>can_schedule\<close> holds, that is, every pair of the pod's node selector
  is among the node's labels and the node's free cpu, memory and gpu are each at least
  the pod's request.
\<close>

theorem calculate_pods_assignment_feasible:
  "\<exists>r. calculate_pods_assignment sorted_nodes sorted_pods = Some r
     \<and> (\<forall>a. r = Inr a \<longrightarrow>
          (\<forall>i<length a.
             i < length sorted_pods
             \<and> 0 \<le> a ! i \<and> a ! i < int (length sorted_nodes)
             \<and> can_schedule (sorted_nodes ! nat (a ! i)) (sorted_pods ! i)
             \<and> (\<forall>(k, v)\<in>set (case pod_node_selector (sorted_pods ! i) of
                                    None \<Rightarrow> [] | Some items \<Rightarrow> items).
                   node_labels (sorted_nodes ! nat (a ! i)) k = Some v)
             \<and> node_cpu (sorted_nodes ! nat (a ! i)) \<ge> pod_cpu (sorted_pods ! i)
             \<and> node_memory (sorted_nodes ! nat (a ! i)) \<ge> pod_memory (sorted_pods ! i)
             \<and> node_gpu (sorted_nodes ! nat (a ! i)) \<ge> pod_gpu (sorted_pods ! i)))"
proof -
  from calculate_total[of sorted_nodes sorted_pods] obtain r where
    r: "calculate_pods_assignment sorted_nodes sorted_pods = Some r"
    and g: "\<forall>b. r = Inr b \<longrightarrow> b = [] \<or> good_assignment sorted_nodes sorted_pods b"
    by blast
  have "\<forall>a. r = Inr a \<longrightarrow>
          (\<forall>i<length a.
             i < length sorted_pods
             \<and> 0 \<le> a ! i \<and> a ! i < int (length sorted_nodes)
             \<and> can_schedule (sorted_nodes ! nat (a ! i)) (sorted_pods ! i)
             \<and> (\<forall>(k, v)\<in>set (case pod_node_selector (sorted_pods ! i) of
                                    None \<Rightarrow> [] | Some items \<Rightarrow> items).
                   node_labels (sorted_nodes ! nat (a ! i)) k = Some v)
             \<and> node_cpu (sorted_nodes ! nat (a ! i)) \<ge> pod_cpu (sorted_pods ! i)
             \<and> node_memory (sorted_nodes ! nat (a ! i)) \<ge> pod_memory (sorted_pods ! i)
             \<and> node_gpu (sorted_nodes ! nat (a ! i)) \<ge> pod_gpu (sorted_pods ! i))"
  proof (intro allI impI)
    fix a i assume "r = Inr a" "i < length a"
    then have "good_assignment sorted_nodes sorted_pods a" using g by auto
    then have base: "i < length sorted_pods \<and> 0 \<le> a ! i \<and> a ! i < int (length sorted_nodes)"
      and can: "can_schedule (sorted_nodes ! nat (a ! i)) (sorted_pods ! i)"
      using \<open>i < length a\<close> unfolding good_assignment_def accepted_def by simp_all
    from can[unfolded can_schedule_iff] base can
    show "i < length sorted_pods
             \<and> 0 \<le> a ! i \<and> a ! i < int (length sorted_nodes)
             \<and> can_schedule (sorted_nodes ! nat (a ! i)) (sorted_pods ! i)
             \<and> (\<forall>(k, v)\<in>set (case pod_node_selector (sorted_pods ! i) of
                                    None \<Rightarrow> [] | Some items \<Rightarrow> items).
                   node_labels (sorted_nodes ! nat (a ! i)) k = Some v)
             \<and> node_cpu (sorted_nodes ! nat (a ! i)) \<ge> pod_cpu (sorted_pods ! i)
             \<and> node_memory (sorted_nodes ! nat (a ! i)) \<ge> pod_memory (sorted_pods ! i)
             \<and> node_gpu (sorted_nodes ! nat (a ! i)) \<ge> pod_gpu (sorted_pods ! i)"
      by blast
  qed
  with r show ?thesis by blast
qed

text \<open>
  The search on five nodes and four pods that fit everywhere: it returns the first four
  nodes.
\<close>

lemma five_nodes_search: "calculate_pods_assignment five_nodes four_pods = Some (Inr [0, 1, 2, 3])"
  by code_simp

theorem calculate_pods_assignment_feasible_witness:
  "calculate_pods_assignment five_nodes four_pods = Some (Inr [0, 1, 2, 3])
   \<and> can_schedule (five_nodes ! 2) (four_pods ! 2)
   \<and> node_gpu (five_nodes ! 2) \<ge> pod_gpu (four_pods ! 2)"
proof -
  from calculate_pods_assignment_feasible[of five_nodes four_pods] five_nodes_search
  have "\<forall>i<length [0, 1, 2, 3::int].
             can_schedule (five_nodes ! nat ([0, 1, 2, 3] ! i)) (four_pods ! i)
             \<and> node_gpu (five_nodes ! nat ([0, 1, 2, 3] ! i)) \<ge> pod_gpu (four_pods ! i)"
    by simp
  then have "can_schedule (five_nodes ! nat ([0, 1, 2, 3] ! 2)) (four_pods ! 2)
             \<and> node_gpu (five_nodes ! nat ([0, 1, 2, 3] ! 2)) \<ge> pod_gpu (four_pods ! 2)"
    by (rule allE[where x = 2]) simp
  then show ?thesis using five_nodes_search by simp
qed


lemma good_assignment_range:
  assumes "good_assignment nodes pods a" "k \<in> set a"
  shows "0 \<le> k \<and> k < int (length nodes)"
proof -
  from assms(2) obtain j where "j < length a" "a ! j = k" by (auto simp: in_set_conv_nth)
  then show ?thesis using assms(1) unfolding good_assignment_def accepted_def by auto
qed

lemma good_assignment_names:
  assumes g: "good_assignment nodes pods a" and d: "distinct (map node_name nodes)"
  shows "distinct (map (\<lambda>k. node_name (nodes ! nat k)) a)"
proof -
  have da: "distinct a" using g unfolding good_assignment_def by (simp add: strict_sorted_iff)
  have "inj_on (\<lambda>k. node_name (nodes ! nat k)) (set a)"
  proof (rule inj_onI)
    fix x y assume x: "x \<in> set a" and y: "y \<in> set a"
      and e: "node_name (nodes ! nat x) = node_name (nodes ! nat y)"
    have rx: "0 \<le> x \<and> x < int (length nodes)" and ry: "0 \<le> y \<and> y < int (length nodes)"
      using good_assignment_range[OF g] x y by simp_all
    then have nx: "nat x < length nodes" and ny: "nat y < length nodes"
      by linarith+
    have lx: "nat x < length (map node_name nodes)"
      and ly: "nat y < length (map node_name nodes)"
      using nx ny by simp_all
    have "map node_name nodes ! nat x = map node_name nodes ! nat y"
      using e nx ny by simp
    then have "nat x = nat y" using nth_eq_iff_index_eq[OF d lx ly] by blast
    then show "x = y" using rx ry by linarith
  qed
  then show ?thesis using da by (simp add: distinct_map)
qed

lemma good_assignment_keys:
  assumes g: "good_assignment nodes pods a" and s: "sorted (map node_topology_key nodes)"
  shows "sorted (map (\<lambda>k. node_topology_key (nodes ! nat k)) a)"
  unfolding sorted_iff_nth_mono_less
proof (intro allI impI)
  fix i j assume ij: "i < j" and j: "j < length (map (\<lambda>k. node_topology_key (nodes ! nat k)) a)"
  then have ja: "j < length a" and ia: "i < length a" by simp_all
  have "a ! i < a ! j"
    using g ij ja unfolding good_assignment_def by (simp add: sorted_wrt_iff_nth_less)
  moreover have "0 \<le> a ! i" "a ! j < int (length nodes)"
    using good_assignment_range[OF g] ia ja by simp_all
  ultimately have le: "nat (a ! i) \<le> nat (a ! j)" and lt: "nat (a ! j) < length nodes"
    by linarith+
  have "map node_topology_key nodes ! nat (a ! i) \<le> map node_topology_key nodes ! nat (a ! j)"
    using s le lt by (simp add: sorted_iff_nth_mono)
  then show "map (\<lambda>k. node_topology_key (nodes ! nat k)) a ! i
               \<le> map (\<lambda>k. node_topology_key (nodes ! nat k)) a ! j"
    using ia ja le lt by simp
qed

text \<open>
  Claim C3. Every non-empty assignment the search returns has one index per pod and is a
  strictly increasing sequence of indices into the sorted nodes. So the indices are
  pairwise distinct, the assigned nodes are pairwise distinct when the nodes are (by
  name), and the assigned topology keys are non-decreasing when the nodes are sorted by
  topology key.
\<close>

theorem calculate_pods_assignment_increasing:
  "\<exists>r. calculate_pods_assignment sorted_nodes sorted_pods = Some r
     \<and> (\<forall>a. r = Inr a \<and> a \<noteq> [] \<longrightarrow>
          length a = length sorted_pods
          \<and> sorted_wrt (<) a
          \<and> (\<forall>k\<in>set a. 0 \<le> k \<and> k < int (length sorted_nodes))
          \<and> distinct a
          \<and> (distinct (map node_name sorted_nodes) \<longrightarrow>
               distinct (map (\<lambda>k. node_name (sorted_nodes ! nat k)) a))
          \<and> (sorted (map node_topology_key sorted_nodes) \<longrightarrow>
               sorted (map (\<lambda>k. node_topology_key (sorted_nodes ! nat k)) a)))"
proof -
  from calculate_total[of sorted_nodes sorted_pods] obtain r where
    r: "calculate_pods_assignment sorted_nodes sorted_pods = Some r"
    and g: "\<forall>b. r = Inr b \<longrightarrow> b = [] \<or> good_assignment sorted_nodes sorted_pods b"
    by blast
  have "\<forall>a. r = Inr a \<and> a \<noteq> [] \<longrightarrow>
          length a = length sorted_pods
          \<and> sorted_wrt (<) a
          \<and> (\<forall>k\<in>set a. 0 \<le> k \<and> k < int (length sorted_nodes))
          \<and> distinct a
          \<and> (distinct (map node_name sorted_nodes) \<longrightarrow>
               distinct (map (\<lambda>k. node_name (sorted_nodes ! nat k)) a))
          \<and> (sorted (map node_topology_key sorted_nodes) \<longrightarrow>
               sorted (map (\<lambda>k. node_topology_key (sorted_nodes ! nat k)) a))"
  proof (intro allI impI)
    fix a assume "r = Inr a \<and> a \<noteq> []"
    then have ga: "good_assignment sorted_nodes sorted_pods a" using g by auto
    have "length a = length sorted_pods" and "sorted_wrt (<) a"
      using ga unfolding good_assignment_def by simp_all
    moreover have "distinct a" using \<open>sorted_wrt (<) a\<close> by (simp add: strict_sorted_iff)
    moreover have "\<forall>k\<in>set a. 0 \<le> k \<and> k < int (length sorted_nodes)"
      using good_assignment_range[OF ga] by blast
    ultimately show "length a = length sorted_pods
          \<and> sorted_wrt (<) a
          \<and> (\<forall>k\<in>set a. 0 \<le> k \<and> k < int (length sorted_nodes))
          \<and> distinct a
          \<and> (distinct (map node_name sorted_nodes) \<longrightarrow>
               distinct (map (\<lambda>k. node_name (sorted_nodes ! nat k)) a))
          \<and> (sorted (map node_topology_key sorted_nodes) \<longrightarrow>
               sorted (map (\<lambda>k. node_topology_key (sorted_nodes ! nat k)) a))"
      using good_assignment_names[OF ga] good_assignment_keys[OF ga] by blast
  qed
  with r show ?thesis by blast
qed

lemma five_nodes_keys:
  "map node_topology_key five_nodes =
     [[''pg'', ''c'', ''rA'', ''h0''], [''pg'', ''c'', ''rA'', ''h1''],
      [''pg'', ''c'', ''rB'', ''h2''],
      [''pg'', ''c'', ''rC'', ''h3''], [''pg'', ''c'', ''rC'', ''h4'']]"
  by (simp add: five_nodes_def example_node_key)

lemma five_nodes_sorted: "sorted (map node_topology_key five_nodes)"
  unfolding five_nodes_keys by (simp add: less_eq_char_def less_char_def)

lemma five_nodes_names: "distinct (map node_name five_nodes)"
  by (simp add: five_nodes_def example_node_def)

theorem calculate_pods_assignment_increasing_witness:
  "distinct (map node_name five_nodes)
   \<and> sorted (map node_topology_key five_nodes)
   \<and> calculate_pods_assignment five_nodes four_pods = Some (Inr [0, 1, 2, 3])
   \<and> sorted_wrt (<) [0, 1, 2, 3 :: int]
   \<and> distinct (map (\<lambda>k. node_name (five_nodes ! nat k)) [0, 1, 2, 3])
   \<and> sorted (map (\<lambda>k. node_topology_key (five_nodes ! nat k)) [0, 1, 2, 3])"
  using calculate_pods_assignment_increasing[of five_nodes four_pods]
    five_nodes_search five_nodes_sorted five_nodes_names
  by simp

subsection \<open>The search is not exhaustive\<close>

lemma pool_nodes_sorted: "sorted (map node_topology_key pool_nodes)"
  by (simp add: pool_nodes_def pool_node_def node_topology_key_def less_eq_char_def less_char_def)

lemma pool_nodes_search: "calculate_pods_assignment pool_nodes pool_pods = Some (Inr [])"
  by code_simp

lemma five_nodes_window: "assignment_distance five_nodes four_pods [0, 1, 2, 3] = Inr 201"
  by code_simp

lemma five_nodes_split: "assignment_distance five_nodes four_pods [0, 1, 3, 4] = Inr 102"
  by code_simp

lemma five_nodes_split_accepted:
  "list_all (accepted five_nodes four_pods [0, 1, 3, 4]) [0, 1, 2, 3]"
  by code_simp

lemma pool_nodes_accepted: "list_all (accepted pool_nodes pool_pods [1, 2, 3]) [0, 1, 2]"
  by code_simp

text \<open>
  Claim C1, at two inputs where the code departs from it. On \<open>five_nodes\<close> (sorted by
  key) and four pods that fit every node, the search returns the nodes 0, 1, 2, 3 at
  distance 201, while the feasible strictly increasing assignment 0, 1, 3, 4 has
  distance 102. On \<open>pool_nodes\<close> and three pods with different node selectors, the
  search returns the empty assignment, while the strictly increasing assignment 1, 2, 3
  is feasible.
\<close>

theorem calculate_pods_assignment_not_best:
  "sorted (map node_topology_key five_nodes)
   \<and> calculate_pods_assignment five_nodes four_pods = Some (Inr [0, 1, 2, 3])
   \<and> assignment_distance five_nodes four_pods [0, 1, 2, 3] = Inr 201
   \<and> length [0, 1, 3, 4 :: int] = length four_pods
   \<and> sorted_wrt (<) [0, 1, 3, 4 :: int]
   \<and> list_all (accepted five_nodes four_pods [0, 1, 3, 4]) [0, 1, 2, 3]
   \<and> assignment_distance five_nodes four_pods [0, 1, 3, 4] = Inr 102
   \<and> sorted (map node_topology_key pool_nodes)
   \<and> calculate_pods_assignment pool_nodes pool_pods = Some (Inr [])
   \<and> length [1, 2, 3 :: int] = length pool_pods
   \<and> sorted_wrt (<) [1, 2, 3 :: int]
   \<and> list_all (accepted pool_nodes pool_pods [1, 2, 3]) [0, 1, 2]"
  using five_nodes_sorted five_nodes_search five_nodes_window five_nodes_split
    five_nodes_split_accepted pool_nodes_sorted pool_nodes_search pool_nodes_accepted
  by (simp add: four_pods_def pool_pods_def)

subsection \<open>The sorting key of a pod without completion index\<close>

lemma py_index_from_end:
  "py_index (ys @ c # suffix) (- 1 - int (length suffix)) = Inr c"
  by (auto simp: py_index_def nth_append)

lemma py_index_past_start:
  "py_index suffix (- 1 - int (length suffix)) = Inl IndexError"
  by (simp add: py_index_def)

lemma suffix_loop_append:
  "suffix_loop (xs @ suffix) suffix =
     (if \<forall>c\<in>set xs. isdigit c then Inl IndexError
      else Inr (rev (takeWhile isdigit (rev xs)) @ suffix))"
proof (induction xs arbitrary: suffix rule: rev_induct)
  case Nil
  show ?case by (subst suffix_loop.simps) (simp add: py_index_past_start)
next
  case (snoc c ys)
  have step: "suffix_loop ((ys @ [c]) @ suffix) suffix =
      (if isdigit c then suffix_loop (ys @ c # suffix) (c # suffix) else Inr suffix)"
    by (subst suffix_loop.simps) (simp add: py_index_from_end)
  show ?case
  proof (cases "isdigit c")
    case True
    then show ?thesis using step snoc.IH[of "c # suffix"] by simp
  next
    case False
    then show ?thesis using step by auto
  qed
qed

lemma suffix_loop_name:
  "suffix_loop name [] =
     (if \<forall>c\<in>set name. isdigit c then Inl IndexError
      else Inr (rev (takeWhile isdigit (rev name))))"
  using suffix_loop_append[of name "[]"] by simp

lemma isdigit_not_space: "isdigit c \<Longrightarrow> \<not> isspace c"
  by (auto simp: isdigit_def isspace_def)

lemma isdigit_not_sign: "isdigit c \<Longrightarrow> c \<noteq> CHR ''-'' \<and> c \<noteq> CHR ''+'' \<and> c \<noteq> CHR ''_''"
  by (auto simp: isdigit_def)

lemma digits_ok_digits: "s \<noteq> [] \<Longrightarrow> \<forall>c\<in>set s. isdigit c \<Longrightarrow> digits_ok s"
  by (induction s rule: digits_ok.induct) (auto dest: isdigit_not_sign)

lemma strip_digits:
  assumes "s \<noteq> []" "\<forall>c\<in>set s. isdigit c"
  shows "strip s = s"
proof -
  have "\<not> isspace (hd s)" using assms by (cases s) (auto dest: isdigit_not_space)
  then have a: "dropWhile isspace s = s" using assms(1) by (cases s) auto
  have "\<not> isspace (hd (rev s))"
    using assms by (simp add: hd_rev isdigit_not_space)
  then have "dropWhile isspace (rev s) = rev s" using assms(1) by (cases "rev s") auto
  then show ?thesis using a by (simp add: strip_def)
qed

lemma py_int_digits:
  assumes "s \<noteq> []" "\<forall>c\<in>set s. isdigit c"
  shows "py_int s = Inr (decimal s)"
proof -
  have "isdigit (hd s)" using assms by (cases s) auto
  then have "hd s \<noteq> CHR ''-''" "hd s \<noteq> CHR ''+''" using isdigit_not_sign by blast+
  moreover have "filter isdigit s = s" using assms(2) by (simp add: filter_id_conv)
  ultimately show ?thesis
    using assms digits_ok_digits[OF assms] strip_digits[OF assms]
    by (simp add: py_int_def Let_def)
qed

text \<open>
  Claim C10. For a pod whose \<open>index\<close> is \<open>None\<close>, \<open>pod_sorting_key\<close> returns a key only
  when the name has a character that is not a digit; for a name made of digits only
  (the empty name too) the scan of the trailing digits walks past the start of the
  string and the function raises \<open>IndexError\<close>. When the name has such a character the
  key is the name without its trailing digits, paired with the number they spell (0
  when there are none).
\<close>

theorem pod_sorting_key_without_index:
  assumes "pod_index pod = None"
  shows "((\<exists>key. pod_sorting_key pod = Inr key) \<longrightarrow> (\<exists>c\<in>set (pod_name pod). \<not> isdigit c))
       \<and> ((\<forall>c\<in>set (pod_name pod). isdigit c) \<longrightarrow> pod_sorting_key pod = Inl IndexError)
       \<and> ((\<exists>c\<in>set (pod_name pod). \<not> isdigit c) \<longrightarrow>
            pod_sorting_key pod =
              Inr (Tuple_key (rev (dropWhile isdigit (rev (pod_name pod))))
                     (if takeWhile isdigit (rev (pod_name pod)) = [] then 0
                      else decimal (rev (takeWhile isdigit (rev (pod_name pod)))))))"
proof -
  let ?name = "pod_name pod"
  let ?suffix = "rev (takeWhile isdigit (rev ?name))"
  have all: "(\<forall>c\<in>set ?name. isdigit c) \<Longrightarrow> pod_sorting_key pod = Inl IndexError"
    using assms by (simp add: pod_sorting_key_def suffix_loop_name)
  have some: "pod_sorting_key pod =
              Inr (Tuple_key (rev (dropWhile isdigit (rev ?name)))
                     (if takeWhile isdigit (rev ?name) = [] then 0 else decimal ?suffix))"
    if ex: "\<exists>c\<in>set ?name. \<not> isdigit c"
  proof -
    have loop: "suffix_loop ?name [] = Inr ?suffix" using ex by (auto simp: suffix_loop_name)
    have digits: "\<forall>c\<in>set ?suffix. isdigit c" by (auto dest: set_takeWhileD)
    have "?name = rev (dropWhile isdigit (rev ?name)) @ ?suffix"
      by (metis rev_append rev_rev_ident takeWhile_dropWhile_id)
    then have pre: "take (length ?name - length ?suffix) ?name = rev (dropWhile isdigit (rev ?name))"
      by (metis append_eq_conv_conj length_append add_diff_cancel_right')
    show ?thesis
    proof (cases "takeWhile isdigit (rev ?name) = []")
      case True
      then show ?thesis using assms loop pre by (simp add: pod_sorting_key_def Let_def)
    next
      case False
      then have "?suffix \<noteq> []" by simp
      from py_int_digits[OF this digits] False show ?thesis
        using assms loop pre by (simp add: pod_sorting_key_def Let_def)
    qed
  qed
  have "(\<exists>key. pod_sorting_key pod = Inr key) \<longrightarrow> (\<exists>c\<in>set ?name. \<not> isdigit c)"
  proof (intro impI, rule ccontr)
    assume r: "\<exists>key. pod_sorting_key pod = Inr key" and "\<not> (\<exists>c\<in>set ?name. \<not> isdigit c)"
    then have "pod_sorting_key pod = Inl IndexError" using all by blast
    with r show False by simp
  qed
  then show ?thesis using all some by blast
qed


theorem pod_sorting_key_without_index_witness:
  "pod_index (example_pod ''12345'' None) = None
   \<and> pod_sorting_key (example_pod ''12345'' None) = Inl IndexError
   \<and> pod_sorting_key (example_pod ''foo-pod10'' None) = Inr (Tuple_key ''foo-pod'' 10)"
proof -
  have n: "\<And>n. pod_index (example_pod n None) = None"
    and m: "\<And>n. pod_name (example_pod n None) = n"
    by (simp_all add: example_pod_def)
  have "pod_sorting_key (example_pod ''12345'' None) = Inl IndexError"
    using pod_sorting_key_without_index[OF n, of "''12345''"]
    by (simp add: m isdigit_def)
  moreover have "pod_sorting_key (example_pod ''foo-pod10'' None) = Inr (Tuple_key ''foo-pod'' 10)"
    using pod_sorting_key_without_index[OF n, of "''foo-pod10''"]
    by (simp add: m isdigit_def decimal_def digit_value_def)
  ultimately show ?thesis using n by simp
qed

subsection \<open>The commit of one pod\<close>

text \<open>
  Claim C9. Let \<open>schedule_pod_on_node\<close> read the pod successfully. If the gate list of
  the pod contains a gate named \<open>gate_name\<close>, the function makes one call of
  \<open>replace_namespaced_pod\<close>, with a pod whose gate list is the original list without
  the gates named \<open>gate_name\<close>: the other gates stay, in their order. The written pod
  has the affinity to the host name of the node and is the pod read in every other
  field. If the gate list does not contain the gate (or is \<open>None\<close>, where
  iterating raises \<open>TypeError\<close>), the state is unchanged and the result does not
  depend on \<open>replace_namespaced_pod\<close>: nothing is written.
\<close>

theorem schedule_pod_on_node_gates:
  assumes "read_namespaced_pod v1 s name namespace = Inr pod"
  shows "(\<forall>gates. scheduling_gates (spec pod) = Some gates
              \<and> gate_name \<in> sg_name ` set gates \<longrightarrow>
            (\<exists>written.
               schedule_pod_on_node v1 s name namespace node gate_name =
                 (case replace_namespaced_pod v1 s name namespace written of
                    Inl e \<Rightarrow> (s, except_api e)
                  | Inr s' \<Rightarrow> (s', None))
               \<and> scheduling_gates (spec written) =
                   Some (filter (\<lambda>gate. sg_name gate \<noteq> gate_name) gates)
               \<and> spec_affinity (spec written) = Some (hostname_affinity node)
               \<and> metadata written = metadata pod \<and> status written = status pod
               \<and> containers (spec written) = containers (spec pod)
               \<and> node_selector (spec written) = node_selector (spec pod)
               \<and> tolerations (spec written) = tolerations (spec pod)
               \<and> spec_node_name (spec written) = spec_node_name (spec pod)))
       \<and> ((\<forall>gates. scheduling_gates (spec pod) = Some gates
               \<longrightarrow> gate_name \<notin> sg_name ` set gates) \<longrightarrow>
            fst (schedule_pod_on_node v1 s name namespace node gate_name) = s
            \<and> (\<forall>r. schedule_pod_on_node (v1\<lparr>replace_namespaced_pod := r\<rparr>)
                       s name namespace node gate_name =
                     schedule_pod_on_node v1 s name namespace node gate_name))"
proof (intro conjI allI impI)
  fix gates
  assume g: "scheduling_gates (spec pod) = Some gates \<and> gate_name \<in> sg_name ` set gates"
  then have ex: "list_ex (\<lambda>gate. sg_name gate = gate_name) gates"
    by (auto simp: list_ex_iff)
  let ?w = "pod\<lparr>spec := (spec pod)\<lparr>spec_affinity := Some (hostname_affinity node),
                 scheduling_gates := Some (filter (\<lambda>gate. sg_name gate \<noteq> gate_name) gates)\<rparr>\<rparr>"
  have "schedule_pod_on_node v1 s name namespace node gate_name =
          (case replace_namespaced_pod v1 s name namespace ?w of
             Inl e \<Rightarrow> (s, except_api e)
           | Inr s' \<Rightarrow> (s', None))"
    using assms g ex by (simp add: schedule_pod_on_node_def Let_def)
  then show "\<exists>written.
               schedule_pod_on_node v1 s name namespace node gate_name =
                 (case replace_namespaced_pod v1 s name namespace written of
                    Inl e \<Rightarrow> (s, except_api e)
                  | Inr s' \<Rightarrow> (s', None))
               \<and> scheduling_gates (spec written) =
                   Some (filter (\<lambda>gate. sg_name gate \<noteq> gate_name) gates)
               \<and> spec_affinity (spec written) = Some (hostname_affinity node)
               \<and> metadata written = metadata pod \<and> status written = status pod
               \<and> containers (spec written) = containers (spec pod)
               \<and> node_selector (spec written) = node_selector (spec pod)
               \<and> tolerations (spec written) = tolerations (spec pod)
               \<and> spec_node_name (spec written) = spec_node_name (spec pod)"
    by (intro exI[of _ ?w]) simp
next
  assume n: "\<forall>gates. scheduling_gates (spec pod) = Some gates
               \<longrightarrow> gate_name \<notin> sg_name ` set gates"
  show "fst (schedule_pod_on_node v1 s name namespace node gate_name) = s"
    using assms n
    by (cases "scheduling_gates (spec pod)")
       (auto simp: schedule_pod_on_node_def list_ex_iff)
next
  fix r
  assume n: "\<forall>gates. scheduling_gates (spec pod) = Some gates
               \<longrightarrow> gate_name \<notin> sg_name ` set gates"
  show "schedule_pod_on_node (v1\<lparr>replace_namespaced_pod := r\<rparr>) s name namespace node gate_name =
          schedule_pod_on_node v1 s name namespace node gate_name"
    using assms n
    by (cases "scheduling_gates (spec pod)")
       (auto simp: schedule_pod_on_node_def list_ex_iff)
qed

lemma gate_cluster_read:
  "read_namespaced_pod cluster_api gate_cluster ''a-0'' ''default'' =
     Inr (gated_pod ''a-0'' ''a'' 1 None [''auto-x'', ''other-y'', ''auto-z'', ''auto-x''])"
  by (simp add: cluster_api_def gate_cluster_def)

lemma gated_pod_gates:
  "scheduling_gates (spec (gated_pod n j t tols gs)) = Some (map V1PodSchedulingGate gs)"
  by (simp add: gated_pod_def)

theorem schedule_pod_on_node_gates_witness:
  "pod_gates (fst (schedule_pod_on_node cluster_api gate_cluster ''a-0'' ''default''
                     (example_node ''n0'' ''rA'' ''h0'') ''auto-x'')) =
     [(''a-0'', Some [''other-y'', ''auto-z''])]
   \<and> schedule_pod_on_node cluster_api gate_cluster ''a-0'' ''default''
        (example_node ''n0'' ''rA'' ''h0'') ''auto-w'' = (gate_cluster, None)"
proof -
  note t = schedule_pod_on_node_gates[OF gate_cluster_read]
  from t[of "''auto-x''" "example_node ''n0'' ''rA'' ''h0''"]
  obtain written where
    w: "schedule_pod_on_node cluster_api gate_cluster ''a-0'' ''default''
          (example_node ''n0'' ''rA'' ''h0'') ''auto-x'' =
        (case replace_namespaced_pod cluster_api gate_cluster ''a-0'' ''default'' written of
           Inl e \<Rightarrow> (gate_cluster, except_api e)
         | Inr s' \<Rightarrow> (s', None))"
    and g: "scheduling_gates (spec written) =
              Some (filter (\<lambda>gate. sg_name gate \<noteq> ''auto-x'')
                      (map V1PodSchedulingGate [''auto-x'', ''other-y'', ''auto-z'', ''auto-x'']))"
    by (auto simp: gated_pod_gates)
  have a: "pod_gates (fst (schedule_pod_on_node cluster_api gate_cluster ''a-0'' ''default''
                     (example_node ''n0'' ''rA'' ''h0'') ''auto-x'')) =
     [(''a-0'', Some [''other-y'', ''auto-z''])]"
    unfolding w by (simp add: cluster_api_def gate_cluster_def pod_gates_def g)
  from t[of "''auto-w''" "example_node ''n0'' ''rA'' ''h0''"]
  have "fst (schedule_pod_on_node cluster_api gate_cluster ''a-0'' ''default''
          (example_node ''n0'' ''rA'' ''h0'') ''auto-w'') = gate_cluster"
    by (simp add: gated_pod_gates)
  moreover have "snd (schedule_pod_on_node cluster_api gate_cluster ''a-0'' ''default''
          (example_node ''n0'' ''rA'' ''h0'') ''auto-w'') = None"
    by (simp add: schedule_pod_on_node_def gate_cluster_read gated_pod_gates)
  ultimately have b: "schedule_pod_on_node cluster_api gate_cluster ''a-0'' ''default''
        (example_node ''n0'' ''rA'' ''h0'') ''auto-w'' = (gate_cluster, None)"
    by (simp add: prod_eq_iff)
  from a b show ?thesis by simp
qed

subsection \<open>The node filter\<close>


lemma nodes_loop_not_ready:
  assumes "nmeta_labels node ''cloud.google.com/gke-placement-group'' \<noteq> None"
    and "list_ex (\<lambda>condition. cond_type condition = ''Ready'' \<and> cond_status condition \<noteq> ''True'')
           (nstatus_conditions node)"
  shows "nodes_loop pq d pods before nodes_info = Inr found
         \<Longrightarrow> nodes_loop pq d pods (before @ node # rest) nodes_info = Inr found"
proof (induction before arbitrary: nodes_info)
  case Nil
  then show ?case using assms by (auto simp: Let_def)
next
  case (Cons b bs)
  then show ?case
    by (auto simp: Let_def split: if_splits sum.splits)
qed

text \<open>
  Claim C5. In \<open>find_schedulable_nodes\<close>, a node that has the placement-group label
  and a \<open>Ready\<close> condition whose status is not \<open>True\<close> ends the loop over the nodes:
  the result is the map built from the nodes before it, whatever nodes come after
  it. The nodes after it are not examined, so the node is not skipped individually.
\<close>

theorem find_schedulable_nodes_not_ready_breaks:
  assumes "nmeta_labels node ''cloud.google.com/gke-placement-group'' \<noteq> None"
    and "list_ex (\<lambda>condition. cond_type condition = ''Ready'' \<and> cond_status condition \<noteq> ''True'')
           (nstatus_conditions node)"
    and "find_schedulable_nodes pq before pods tolerated_taints = Inr found"
  shows "find_schedulable_nodes pq (before @ node # rest) pods tolerated_taints = Inr found"
  using nodes_loop_not_ready[OF assms(1,2)] assms(3)
  by (simp add: find_schedulable_nodes_def)

lemma not_ready_node_facts:
  "nmeta_labels not_ready_node ''cloud.google.com/gke-placement-group'' \<noteq> None"
  "list_ex (\<lambda>condition. cond_type condition = ''Ready'' \<and> cond_status condition \<noteq> ''True'')
     (nstatus_conditions not_ready_node)"
  by (simp_all add: not_ready_node_def cluster_node_def topology_labels_def)

lemma ready_nodes_keys:
  "schedulable_keys [node_n1, node_n2] =
     Inr [(''n1'', [''pg'', ''c'', ''r'', ''h1'']), (''n2'', [''pg'', ''c'', ''r'', ''h2''])]"
  by code_simp

theorem find_schedulable_nodes_not_ready_breaks_witness:
  "schedulable_keys [node_n1, node_n2] =
     Inr [(''n1'', [''pg'', ''c'', ''r'', ''h1'']), (''n2'', [''pg'', ''c'', ''r'', ''h2''])]
   \<and> schedulable_keys ([] @ not_ready_node # [node_n1, node_n2]) = Inr []"
proof -
  have "find_schedulable_nodes plain_quantity [] [] (Some []) = Inr []"
    by (simp add: find_schedulable_nodes_def)
  from find_schedulable_nodes_not_ready_breaks[OF not_ready_node_facts this]
  have "schedulable_keys ([] @ not_ready_node # [node_n1, node_n2]) = Inr []"
    by (simp add: schedulable_keys_def)
  with ready_nodes_keys show ?thesis by simp
qed

text \<open>
  Claim C6. \<open>find_schedulable_nodes\<close> tests the placement-group label only. Of four
  nodes that each lack one of the four topology labels, the node without the
  placement-group label is excluded and the three others are in the returned map,
  with the empty topology key. With such a node among the candidates of a job of two
  pods, \<open>node_topology_distance\<close> indexes the empty key and \<open>schedule_pod_with_gate\<close>
  ends with \<open>IndexError\<close>.
\<close>

theorem find_schedulable_nodes_partial_labels:
  "schedulable_keys [no_group_node, no_cluster_node, no_rack_node, no_host_node, node_n1] =
     Inr [(''p1'', []), (''p2'', []), (''p3'', []), (''n1'', [''pg'', ''c'', ''r'', ''h1''])]
   \<and> tick [no_rack_node, node_n1] two_pod_job ''g'' =
       Some ([(''a-0'', Some [''g'']), (''a-1'', Some [''g''])], Some IndexError)"
  by code_simp

subsection \<open>The jobs of a gate\<close>

text \<open>
  Claim C7. \<open>split_pods_based_on_jobs\<close> groups consecutive pods only. For the pods
  \<open>a-0\<close>, \<open>b-0\<close>, \<open>a-1\<close> of the jobs \<open>a\<close>, \<open>b\<close>, \<open>a\<close> in this order it returns three
  groups, and two groups when the pods of \<open>a\<close> are adjacent. On a cluster with one node
  the two orders give different placements: the two pods of \<open>a\<close> are each released as
  a job of their own in the first order, and job \<open>a\<close> is skipped in the second.
\<close>

theorem split_pods_based_on_jobs_consecutive:
  "job_groups interleaved_pods ''g'' = Inr [[''a-0''], [''b-0''], [''a-1'']]
   \<and> job_groups adjacent_pods ''g'' = Inr [[''a-0'', ''a-1''], [''b-0'']]
   \<and> tick [node_n1] interleaved_pods ''g'' =
       Some ([(''a-0'', Some []), (''b-0'', Some []), (''a-1'', Some [])], None)
   \<and> tick [node_n1] adjacent_pods ''g'' =
       Some ([(''a-0'', Some [''g'']), (''a-1'', Some [''g'']), (''b-0'', Some [])], None)"
  by code_simp

end
